theory Spec2Isabelle
  imports Complex_Main
begin

section \<open>JavaScript numbers\<close>

text \<open>
  Every value of the analyzer is a JavaScript \<open>number\<close>. The model keeps the
  special values of that type apart from the finite ones: \<open>Fin r\<close> is a finite
  number (\<open>Fin 0\<close> is \<open>+0\<close>), \<open>NegZero\<close> is \<open>-0\<close>, and \<open>PosInf\<close>, \<open>NegInf\<close> and \<open>NaN\<close>
  are \<open>Infinity\<close>, \<open>-Infinity\<close> and \<open>NaN\<close>. Finite arithmetic is exact: the
  rounding of IEEE doubles (and of the 32-bit elements of a \<open>Float32Array\<close>) is
  not modelled, and a finite result never overflows.
\<close>

datatype jsnum = Fin real | NegZero | PosInf | NegInf | NaN

fun val :: "jsnum \<Rightarrow> real" where
  "val (Fin r) = r"
| "val _ = 0"

fun isInf :: "jsnum \<Rightarrow> bool" where
  "isInf PosInf = True"
| "isInf NegInf = True"
| "isInf _ = False"

fun isZero :: "jsnum \<Rightarrow> bool" where
  "isZero (Fin r) = (r = 0)"
| "isZero NegZero = True"
| "isZero _ = False"

text \<open>The sign bit of a number other than \<open>NaN\<close>.\<close>

fun neg :: "jsnum \<Rightarrow> bool" where
  "neg (Fin r) = (r < 0)"
| "neg NegZero = True"
| "neg NegInf = True"
| "neg _ = False"

definition signedInf :: "bool \<Rightarrow> jsnum" where
  "signedInf s = (if s then NegInf else PosInf)"

definition signedZero :: "bool \<Rightarrow> jsnum" where
  "signedZero s = (if s then NegZero else Fin 0)"

text \<open>\<open>a + b\<close>.\<close>

fun jsAdd :: "jsnum \<Rightarrow> jsnum \<Rightarrow> jsnum" where
  "jsAdd NaN _ = NaN"
| "jsAdd _ NaN = NaN"
| "jsAdd PosInf NegInf = NaN"
| "jsAdd NegInf PosInf = NaN"
| "jsAdd PosInf _ = PosInf"
| "jsAdd _ PosInf = PosInf"
| "jsAdd NegInf _ = NegInf"
| "jsAdd _ NegInf = NegInf"
| "jsAdd NegZero NegZero = NegZero"
| "jsAdd a b = Fin (val a + val b)"

text \<open>Unary minus.\<close>

fun jsNeg :: "jsnum \<Rightarrow> jsnum" where
  "jsNeg (Fin r) = (if r = 0 then NegZero else Fin (- r))"
| "jsNeg NegZero = Fin 0"
| "jsNeg PosInf = NegInf"
| "jsNeg NegInf = PosInf"
| "jsNeg NaN = NaN"

text \<open>\<open>a - b\<close>.\<close>

definition jsSub :: "jsnum \<Rightarrow> jsnum \<Rightarrow> jsnum" where
  "jsSub a b = jsAdd a (jsNeg b)"

text \<open>\<open>a * b\<close>.\<close>

definition jsMul :: "jsnum \<Rightarrow> jsnum \<Rightarrow> jsnum" where
  "jsMul a b =
     (if a = NaN \<or> b = NaN then NaN
      else if isInf a \<or> isInf b then
        (if isZero a \<or> isZero b then NaN else signedInf (neg a \<noteq> neg b))
      else if isZero a \<or> isZero b then signedZero (neg a \<noteq> neg b)
      else Fin (val a * val b))"

text \<open>\<open>a / b\<close>: a division by zero is not an error, it gives an infinity or \<open>NaN\<close>.\<close>

definition jsDiv :: "jsnum \<Rightarrow> jsnum \<Rightarrow> jsnum" where
  "jsDiv a b =
     (if a = NaN \<or> b = NaN then NaN
      else if isInf a then (if isInf b then NaN else signedInf (neg a \<noteq> neg b))
      else if isInf b then signedZero (neg a \<noteq> neg b)
      else if isZero b then (if isZero a then NaN else signedInf (neg a \<noteq> neg b))
      else if isZero a then signedZero (neg a \<noteq> neg b)
      else Fin (val a / val b))"

text \<open>\<open>a < b\<close>: false as soon as one side is \<open>NaN\<close>; \<open>-0\<close> and \<open>+0\<close> compare equal.\<close>

fun jsLt :: "jsnum \<Rightarrow> jsnum \<Rightarrow> bool" where
  "jsLt NaN _ = False"
| "jsLt _ NaN = False"
| "jsLt PosInf _ = False"
| "jsLt _ PosInf = True"
| "jsLt _ NegInf = False"
| "jsLt NegInf _ = True"
| "jsLt a b = (val a < val b)"

definition jsGt :: "jsnum \<Rightarrow> jsnum \<Rightarrow> bool" where
  "jsGt a b = jsLt b a"

definition jsLe :: "jsnum \<Rightarrow> jsnum \<Rightarrow> bool" where
  "jsLe a b = (a \<noteq> NaN \<and> b \<noteq> NaN \<and> \<not> jsLt b a)"

definition jsGe :: "jsnum \<Rightarrow> jsnum \<Rightarrow> bool" where
  "jsGe a b = jsLe b a"

text \<open>\<open>Math.max(a, b)\<close> and \<open>Math.min(a, b)\<close>: \<open>NaN\<close> is contagious, \<open>+0\<close> is larger than \<open>-0\<close>.\<close>

definition jsMax :: "jsnum \<Rightarrow> jsnum \<Rightarrow> jsnum" where
  "jsMax a b =
     (if a = NaN \<or> b = NaN then NaN
      else if jsLt a b then b
      else if jsLt b a then a
      else if a = NegZero then b else a)"

definition jsMin :: "jsnum \<Rightarrow> jsnum \<Rightarrow> jsnum" where
  "jsMin a b =
     (if a = NaN \<or> b = NaN then NaN
      else if jsLt a b then a
      else if jsLt b a then b
      else if a = NegZero then a else b)"

text \<open>
  \<open>Math.round(x)\<close>: the nearest integer, a tie going up; \<open>-0\<close> for \<open>-0.5 \<le> x < 0\<close>;
  the infinities and \<open>NaN\<close> are returned unchanged.
\<close>

fun jsRound :: "jsnum \<Rightarrow> jsnum" where
  "jsRound (Fin r) =
     (if r < 0 \<and> - (1 / 2) \<le> r then NegZero else Fin (of_int \<lfloor>r + 1 / 2\<rfloor>))"
| "jsRound x = x"

text \<open>
  \<open>a[i]\<close> on an array of numbers: the element when \<open>i\<close> is an integer inside the
  array (\<open>-0\<close> is the index 0), \<open>undefined\<close> (\<open>None\<close>) for every other \<open>i\<close>.
\<close>

fun jsIndex :: "jsnum list \<Rightarrow> jsnum \<Rightarrow> jsnum option" where
  "jsIndex a (Fin r) =
     (if r = of_int \<lfloor>r\<rfloor> \<and> 0 \<le> r \<and> r < real (length a) then Some (a ! nat \<lfloor>r\<rfloor>) else None)"
| "jsIndex a NegZero = (if a = [] then None else Some (a ! 0))"
| "jsIndex a _ = None"

text \<open>The conversion of an operand to a number: \<open>undefined\<close> becomes \<open>NaN\<close>.\<close>

fun toNumber :: "jsnum option \<Rightarrow> jsnum" where
  "toNumber None = NaN"
| "toNumber (Some x) = x"

text \<open>A count (an array length, a size constant) as a number.\<close>

definition jsNat :: "nat \<Rightarrow> jsnum" where
  "jsNat n = Fin (real n)"

text \<open>\<open>a.length\<close> as a number.\<close>

definition jsLength :: "'a list \<Rightarrow> jsnum" where
  "jsLength a = jsNat (length a)"

text \<open>\<open>new Float32Array(n)\<close>: \<open>n\<close> elements, all \<open>+0\<close>.\<close>

definition newFloat32Array :: "nat \<Rightarrow> jsnum list" where
  "newFloat32Array n = replicate n (Fin 0)"

section \<open>Constants of the analyzer\<close>

definition FFT_SIZE :: nat where "FFT_SIZE = 2048"
definition SAMPLE_RATE :: jsnum where "SAMPLE_RATE = Fin 44100"
definition MIN_BPM :: jsnum where "MIN_BPM = Fin 60"
definition MAX_BPM :: jsnum where "MAX_BPM = Fin 200"

definition LOW_FREQ_MIN :: jsnum where "LOW_FREQ_MIN = Fin 20"
definition LOW_FREQ_MAX :: jsnum where "LOW_FREQ_MAX = Fin 250"
definition MID_FREQ_MIN :: jsnum where "MID_FREQ_MIN = Fin 250"
definition MID_FREQ_MAX :: jsnum where "MID_FREQ_MAX = Fin 4000"
definition HIGH_FREQ_MIN :: jsnum where "HIGH_FREQ_MIN = Fin 4000"
definition HIGH_FREQ_MAX :: jsnum where "HIGH_FREQ_MAX = Fin 20000"

definition LOW_WEIGHT :: jsnum where "LOW_WEIGHT = Fin (5 / 10)"
definition MID_WEIGHT :: jsnum where "MID_WEIGHT = Fin (3 / 10)"
definition HIGH_WEIGHT :: jsnum where "HIGH_WEIGHT = Fin (2 / 10)"

definition ONSET_THRESHOLD :: jsnum where "ONSET_THRESHOLD = Fin (15 / 100)"
definition MIN_ONSET_INTERVAL_MS :: jsnum where "MIN_ONSET_INTERVAL_MS = Fin 300"
definition MAX_ONSET_INTERVAL_MS :: jsnum where "MAX_ONSET_INTERVAL_MS = Fin 1000"
definition ONSET_HISTORY_SIZE :: nat where "ONSET_HISTORY_SIZE = 16"

section \<open>Energy bands\<close>

text \<open>\<open>frequencyToBin\<close>: the FFT bin of a frequency in Hz.\<close>

definition frequencyToBin :: "jsnum \<Rightarrow> jsnum \<Rightarrow> jsnum \<Rightarrow> jsnum" where
  "frequencyToBin frequency fftSize sampleRate =
     (let binWidth = jsDiv sampleRate fftSize
      in jsRound (jsDiv frequency binWidth))"

text \<open>
  The loop \<open>for (let i = startBin; i < endBin; i++) sum += fftData[i]\<close> of
  \<open>calculateBandEnergy\<close>. Nothing in the loop itself bounds the number of rounds
  (from \<open>-Infinity\<close> the counter never moves), so a run that does not end is \<open>None\<close>.
  The accumulator \<open>sm\<close> is the variable \<open>sum\<close> of the source. The last argument is
  not a variable of the source: it records, in order, the index of every read
  \<open>fftData[i]\<close> the loop makes.
\<close>

partial_function (option) sumBins ::
  "jsnum list \<Rightarrow> jsnum \<Rightarrow> jsnum \<Rightarrow> jsnum \<Rightarrow> jsnum list \<Rightarrow> (jsnum \<times> jsnum list) option" where
  "sumBins fftData endBin i sm reads =
     (if jsLt i endBin
      then sumBins fftData endBin (jsAdd i (Fin 1))
             (jsAdd sm (toNumber (jsIndex fftData i))) (reads @ [i])
      else Some (sm, reads))"

declare sumBins.simps [code]

text \<open>
  \<open>calculateBandEnergy\<close> with the record of its reads: the returned number and the
  indices at which \<open>fftData\<close> was read.
\<close>

definition bandEnergyRun :: "jsnum list \<Rightarrow> jsnum \<Rightarrow> jsnum \<Rightarrow> (jsnum \<times> jsnum list) option" where
  "bandEnergyRun fftData startBin endBin =
     (if jsGe startBin endBin \<or> jsLt startBin (Fin 0) \<or> jsGt endBin (jsLength fftData)
      then Some (Fin 0, [])
      else
        (let count = jsSub endBin startBin
         in case sumBins fftData endBin startBin (Fin 0) [] of
              None \<Rightarrow> None
            | Some (sm, reads) \<Rightarrow>
                Some (if jsGt count (Fin 0) then jsDiv sm count else Fin 0, reads)))"

text \<open>\<open>calculateBandEnergy\<close>: the number it returns, \<open>None\<close> when it does not return.\<close>

definition calculateBandEnergy :: "jsnum list \<Rightarrow> jsnum \<Rightarrow> jsnum \<Rightarrow> jsnum option" where
  "calculateBandEnergy fftData startBin endBin =
     map_option fst (bandEnergyRun fftData startBin endBin)"


record EnergyBands =
  low :: jsnum
  mid :: jsnum
  high :: jsnum
  total :: jsnum

text \<open>\<open>calculateEnergyBands\<close>; \<open>None\<close> when one of the three band sums does not return.\<close>

definition calculateEnergyBands :: "jsnum list \<Rightarrow> jsnum \<Rightarrow> jsnum \<Rightarrow> EnergyBands option" where
  "calculateEnergyBands fftData fftSize sampleRate =
     (let lowStart = frequencyToBin LOW_FREQ_MIN fftSize sampleRate;
          lowEnd = frequencyToBin LOW_FREQ_MAX fftSize sampleRate;
          midStart = frequencyToBin MID_FREQ_MIN fftSize sampleRate;
          midEnd = frequencyToBin MID_FREQ_MAX fftSize sampleRate;
          highStart = frequencyToBin HIGH_FREQ_MIN fftSize sampleRate;
          highEnd = jsMin (frequencyToBin HIGH_FREQ_MAX fftSize sampleRate) (jsLength fftData)
      in case calculateBandEnergy fftData lowStart lowEnd of
           None \<Rightarrow> None
         | Some lo \<Rightarrow>
        (case calculateBandEnergy fftData midStart midEnd of
           None \<Rightarrow> None
         | Some mi \<Rightarrow>
        (case calculateBandEnergy fftData highStart highEnd of
           None \<Rightarrow> None
         | Some hi \<Rightarrow>
             Some \<lparr> low = lo, mid = mi, high = hi,
                    total = jsMin (Fin 1) (jsMax (Fin 0)
                      (jsAdd (jsAdd (jsMul lo LOW_WEIGHT) (jsMul mi MID_WEIGHT))
                             (jsMul hi HIGH_WEIGHT))) \<rparr>)))"

section \<open>The BPM detector\<close>

definition constrainBpm :: "jsnum \<Rightarrow> jsnum" where
  "constrainBpm bpm = jsMin MAX_BPM (jsMax MIN_BPM bpm)"

record BpmDetector =
  onsetTimes :: "jsnum list"
  lastEnergy :: jsnum
  lastOnsetTime :: jsnum
  currentBpm :: jsnum

text \<open>The field initialisers of the class.\<close>

definition newBpmDetector :: BpmDetector where
  "newBpmDetector =
     \<lparr> onsetTimes = [], lastEnergy = Fin 0, lastOnsetTime = Fin 0, currentBpm = Fin 120 \<rparr>"

text \<open>
  The loop of \<open>updateBpm\<close> that collects the valid intervals. It is entered with
  \<open>i = 1\<close>, and \<open>i < onsetTimes.length\<close> holds at both reads, so they are inside the
  array.
\<close>

function collectIntervals :: "jsnum list \<Rightarrow> nat \<Rightarrow> jsnum list \<Rightarrow> jsnum list" where
  "collectIntervals onsets i intervals =
     (if i < length onsets
      then (let interval = jsSub (onsets ! i) (onsets ! (i - 1))
            in collectIntervals onsets (i + 1)
                 (if jsGe interval MIN_ONSET_INTERVAL_MS \<and> jsLe interval MAX_ONSET_INTERVAL_MS
                  then intervals @ [interval] else intervals))
      else intervals)"
  by pat_completeness auto
termination
  by (relation "measure (\<lambda>(onsets, i, intervals). length onsets - i)") auto

definition updateBpm :: "BpmDetector \<Rightarrow> BpmDetector" where
  "updateBpm d =
     (let intervals = collectIntervals (onsetTimes d) 1 []
      in if length intervals > 0
         then (let avgInterval = jsDiv (foldl (\<lambda>a b. jsAdd a b) (Fin 0) intervals)
                                       (jsLength intervals);
                   bpm = jsDiv (Fin 60000) avgInterval
               in d\<lparr>currentBpm := constrainBpm bpm\<rparr>)
         else d)"

text \<open>\<open>processEnergy\<close>: the returned flag and the detector after the call.\<close>

definition processEnergy :: "BpmDetector \<Rightarrow> jsnum \<Rightarrow> jsnum \<Rightarrow> bool \<times> BpmDetector" where
  "processEnergy d energy timestamp =
     (let energyDelta = jsSub energy (lastEnergy d);
          d1 = d\<lparr>lastEnergy := energy\<rparr>;
          isOnset = (jsGt energyDelta ONSET_THRESHOLD \<and>
                     jsGt (jsSub timestamp (lastOnsetTime d1)) MIN_ONSET_INTERVAL_MS)
      in if isOnset
         then (let d2 = d1\<lparr>lastOnsetTime := timestamp\<rparr>;
                   d3 = d2\<lparr>onsetTimes := onsetTimes d2 @ [timestamp]\<rparr>;
                   d4 = (if length (onsetTimes d3) > ONSET_HISTORY_SIZE
                         then d3\<lparr>onsetTimes := tl (onsetTimes d3)\<rparr> else d3);
                   d5 = (if length (onsetTimes d4) \<ge> 2 then updateBpm d4 else d4)
               in (isOnset, d5))
         else (isOnset, d1))"

definition getBpm :: "BpmDetector \<Rightarrow> jsnum" where
  "getBpm d = currentBpm d"

definition reset :: "BpmDetector \<Rightarrow> BpmDetector" where
  "reset d = d\<lparr>onsetTimes := [], lastEnergy := Fin 0, lastOnsetTime := Fin 0,
               currentBpm := Fin 120\<rparr>"

text \<open>A caller's use of a detector: a sequence of the two calls that change it.\<close>

datatype detectorCall = ProcessEnergy jsnum jsnum | Reset

fun runCall :: "BpmDetector \<Rightarrow> detectorCall \<Rightarrow> BpmDetector" where
  "runCall d (ProcessEnergy energy timestamp) = snd (processEnergy d energy timestamp)"
| "runCall d Reset = reset d"

definition runCalls :: "detectorCall list \<Rightarrow> BpmDetector" where
  "runCalls calls = foldl runCall newBpmDetector calls"

section \<open>The analyzer\<close>

record AudioAnalysis =
  timestamp :: jsnum
  fft :: "jsnum list"
  energy :: EnergyBands
  bpm :: jsnum
  beat :: bool

text \<open>
  What the model keeps of the Web Audio objects: of an \<open>AudioContext\<close> its
  \<open>sampleRate\<close>, of an \<open>AnalyserNode\<close> its two settings, of a source node an
  identifier.
\<close>

record AudioContext =
  sampleRate :: jsnum

record AnalyserNode =
  fftSize :: jsnum
  smoothingTimeConstant :: jsnum

text \<open>
  The fields of \<open>AudioAnalyzer\<close>; \<open>None\<close> is \<open>null\<close>. The set of callbacks is left
  out: the callbacks are only called with the result of \<open>getAnalysis\<close>.
\<close>

record AudioAnalyzer =
  audioContext :: "AudioContext option"
  analyserNode :: "AnalyserNode option"
  sourceNode :: "nat option"
  fftData :: "jsnum list"
  normalizedFft :: "jsnum list"
  bpmDetector :: BpmDetector
  animationFrameId :: "nat option"
  isConnected :: bool

text \<open>The constructor and the field initialisers.\<close>

definition newAudioAnalyzer :: AudioAnalyzer where
  "newAudioAnalyzer =
     \<lparr> audioContext = None, analyserNode = None, sourceNode = None,
       fftData = newFloat32Array (FFT_SIZE div 2),
       normalizedFft = newFloat32Array (FFT_SIZE div 2),
       bpmDetector = newBpmDetector,
       animationFrameId = None, isConnected = False \<rparr>"

text \<open>
  \<open>connect\<close>. The environment supplies the context that \<open>new AudioContext()\<close> would
  create, the identifier of the source node and the identifier that
  \<open>requestAnimationFrame\<close> returns.
\<close>

definition connect :: "AudioAnalyzer \<Rightarrow> AudioContext \<Rightarrow> nat \<Rightarrow> nat \<Rightarrow> AudioAnalyzer" where
  "connect a freshContext source frameId =
     (let a1 = (if audioContext a = None then a\<lparr>audioContext := Some freshContext\<rparr> else a);
          a2 = a1\<lparr>analyserNode :=
                    Some \<lparr> fftSize = jsNat FFT_SIZE, smoothingTimeConstant = Fin (8 / 10) \<rparr>\<rparr>;
          a3 = a2\<lparr>sourceNode := Some source\<rparr>;
          a4 = a3\<lparr>isConnected := True\<rparr>
      in a4\<lparr>animationFrameId := Some frameId\<rparr>)"

definition stopAnalysisLoop :: "AudioAnalyzer \<Rightarrow> AudioAnalyzer" where
  "stopAnalysisLoop a =
     (if animationFrameId a \<noteq> None then a\<lparr>animationFrameId := None\<rparr> else a)"

definition disconnect :: "AudioAnalyzer \<Rightarrow> AudioAnalyzer" where
  "disconnect a =
     (let a1 = stopAnalysisLoop a;
          a2 = (if sourceNode a1 \<noteq> None then a1\<lparr>sourceNode := None\<rparr> else a1);
          a3 = (if analyserNode a2 \<noteq> None then a2\<lparr>analyserNode := None\<rparr> else a2);
          a4 = a3\<lparr>isConnected := False\<rparr>
      in a4\<lparr>bpmDetector := reset (bpmDetector a4)\<rparr>)"

text \<open>
  \<open>analyserNode.getFloatFrequencyData(array)\<close> copies the current frequency data
  (\<open>frame\<close>, in dB, supplied by the environment) into \<open>array\<close>: elements that do not
  fit are dropped, elements of \<open>array\<close> beyond the frame keep their value.
\<close>

definition getFloatFrequencyData :: "jsnum list \<Rightarrow> jsnum list \<Rightarrow> jsnum list" where
  "getFloatFrequencyData frame array =
     take (length array) frame @ drop (length frame) array"

text \<open>
  The loop of \<open>normalizeFftData\<close>. A write \<open>normalizedFft[i] = v\<close> beyond the end of
  a typed array is ignored, as \<open>list_update\<close> does.
\<close>

function normalizeLoop :: "jsnum list \<Rightarrow> nat \<Rightarrow> jsnum list \<Rightarrow> jsnum list" where
  "normalizeLoop data i out =
     (if i < length data
      then (let minDb = Fin (- 100);
                maxDb = Fin 0;
                range = jsSub maxDb minDb;
                db = data ! i;
                normalized = jsDiv (jsSub (jsMax minDb (jsMin maxDb db)) minDb) range
            in normalizeLoop data (i + 1) (out[i := normalized]))
      else out)"
  by pat_completeness auto
termination
  by (relation "measure (\<lambda>(data, i, out). length data - i)") auto

definition normalizeFftData :: "AudioAnalyzer \<Rightarrow> AudioAnalyzer" where
  "normalizeFftData a = a\<lparr>normalizedFft := normalizeLoop (fftData a) 0 (normalizedFft a)\<rparr>"

definition createSilentAnalysis :: "jsnum \<Rightarrow> AudioAnalysis" where
  "createSilentAnalysis ts =
     \<lparr> timestamp = ts,
       fft = newFloat32Array (FFT_SIZE div 2),
       energy = \<lparr> low = Fin 0, mid = Fin 0, high = Fin 0, total = Fin 0 \<rparr>,
       bpm = Fin 120,
       beat = False \<rparr>"

text \<open>
  \<open>getAnalysis\<close>: the analysis it returns and the analyzer after the call. The
  environment supplies \<open>now\<close>, the value of \<open>performance.now()\<close>, and \<open>frame\<close>, the
  frequency data of the analyser node at that moment.
\<close>

definition getAnalysis ::
  "AudioAnalyzer \<Rightarrow> jsnum \<Rightarrow> jsnum list \<Rightarrow> (AudioAnalysis \<times> AudioAnalyzer) option" where
  "getAnalysis a now frame =
     (if \<not> isConnected a \<or> analyserNode a = None
      then Some (createSilentAnalysis now, a)
      else
        (let a1 = a\<lparr>fftData := getFloatFrequencyData frame (fftData a)\<rparr>;
             a2 = normalizeFftData a1
         in case calculateEnergyBands (normalizedFft a2) (jsNat FFT_SIZE)
                   (case audioContext a2 of None \<Rightarrow> SAMPLE_RATE | Some c \<Rightarrow> sampleRate c) of
              None \<Rightarrow> None
            | Some e \<Rightarrow>
                (let (b, d) = processEnergy (bpmDetector a2) (total e) now;
                     a3 = a2\<lparr>bpmDetector := d\<rparr>
                 in Some (\<lparr> timestamp = now, fft = normalizedFft a3, energy = e,
                             bpm = getBpm d, beat = b \<rparr>, a3))))"


text \<open>
  The detector of the worked example: a first onset at 1000 ms, then a quiet tick at
  1100 ms.
\<close>

definition afterOneOnset :: BpmDetector where
  "afterOneOnset =
     runCalls [ProcessEnergy (Fin (1 / 2)) (Fin 1000), ProcessEnergy (Fin (1 / 10)) (Fin 1100)]"

text \<open>The same detector after a second onset at 1400 ms: one interval of 400 ms, 150 BPM.\<close>

definition afterTwoOnsets :: BpmDetector where
  "afterTwoOnsets =
     runCalls [ProcessEnergy (Fin (1 / 2)) (Fin 1000), ProcessEnergy (Fin (1 / 10)) (Fin 1100),
               ProcessEnergy (Fin (1 / 2)) (Fin 1400)]"

text \<open>An analyzer connected to a source at 48 kHz whose detector has reached 150 BPM.\<close>

definition liveAnalyzer :: AudioAnalyzer where
  "liveAnalyzer =
     (connect newAudioAnalyzer \<lparr> sampleRate = Fin 48000 \<rparr> 1 1)\<lparr>bpmDetector := afterTwoOnsets\<rparr>"

section \<open>Notions of the specification\<close>

text \<open>
  The values \<open>Math.round\<close> can return, and so the values \<open>frequencyToBin\<close> passes
  for a bin index: an integer, \<open>-0\<close>, an infinity or \<open>NaN\<close>.
\<close>

definition isBinIndex :: "jsnum \<Rightarrow> bool" where
  "isBinIndex x = (case x of Fin r \<Rightarrow> r = of_int \<lfloor>r\<rfloor> | _ \<Rightarrow> True)"

definition isFinite :: "jsnum \<Rightarrow> bool" where
  "isFinite x = (case x of Fin r \<Rightarrow> True | NegZero \<Rightarrow> True | _ \<Rightarrow> False)"

text \<open>A number of the interval [0,1].\<close>

definition inUnit :: "jsnum \<Rightarrow> bool" where
  "inUnit x = (case x of Fin r \<Rightarrow> 0 \<le> r \<and> r \<le> 1 | NegZero \<Rightarrow> True | _ \<Rightarrow> False)"

text \<open>
  The ranges that pass the guard of \<open>calculateBandEnergy\<close> with two bounds that are
  numbers: the range starts at 0 or later, is not empty and ends inside the array.
\<close>

definition validWindow :: "jsnum list \<Rightarrow> jsnum \<Rightarrow> jsnum \<Rightarrow> bool" where
  "validWindow bins startBin endBin =
     (jsLe (Fin 0) startBin \<and> jsLt startBin endBin \<and> jsLe endBin (jsLength bins))"

text \<open>The slice of the array that the loop sums for such a range.\<close>

definition binsInRange :: "jsnum list \<Rightarrow> jsnum \<Rightarrow> jsnum \<Rightarrow> jsnum list" where
  "binsInRange bins startBin endBin =
     take (nat \<lfloor>val endBin\<rfloor> - nat \<lfloor>val startBin\<rfloor>) (drop (nat \<lfloor>val startBin\<rfloor>) bins)"

text \<open>The arithmetic mean.\<close>

definition mean :: "real list \<Rightarrow> real" where
  "mean xs = sum_list xs / real (length xs)"

text \<open>
  The specification's account of a band, in its words. The bins of a range are the bins
  of the spectrum whose position lies from \<open>startBin\<close> up to, not including, \<open>endBin\<close>.
\<close>

definition spec_binsInRange :: "jsnum list \<Rightarrow> jsnum \<Rightarrow> jsnum \<Rightarrow> jsnum list" where
  "spec_binsInRange bins startBin endBin =
     map (\<lambda>k. bins ! k)
       (filter (\<lambda>k. jsLe startBin (jsNat k) \<and> jsLt (jsNat k) endBin) [0..<length bins])"

text \<open>
  The energy of the band is the arithmetic mean of the magnitudes of its bins, and 0 if
  the range maps to zero bins.
\<close>

definition spec_bandEnergy :: "jsnum list \<Rightarrow> jsnum \<Rightarrow> jsnum \<Rightarrow> jsnum" where
  "spec_bandEnergy bins startBin endBin =
     (let inRange = spec_binsInRange bins startBin endBin
      in if inRange = [] then Fin 0 else Fin (mean (map val inRange)))"

text \<open>A range that lies inside the array: it starts at 0 or later and ends at the length or before.\<close>

definition rangeInsideArray :: "jsnum list \<Rightarrow> jsnum \<Rightarrow> jsnum \<Rightarrow> bool" where
  "rangeInsideArray bins startBin endBin =
     (jsLe (Fin 0) startBin \<and> jsLe endBin (jsLength bins))"

text \<open>
  The specification's account of an onset, in its words. First, the intervals between
  consecutive onsets of the history.
\<close>

definition spec_interOnsetIntervals :: "jsnum list \<Rightarrow> jsnum list" where
  "spec_interOnsetIntervals history =
     map (\<lambda>(earlier, later). jsSub later earlier) (zip history (tl history))"

text \<open>An interval is valid when it lies within 300 ms (200 BPM) and 1000 ms (60 BPM).\<close>

definition spec_validInterval :: "jsnum \<Rightarrow> bool" where
  "spec_validInterval x = (case x of Fin r \<Rightarrow> 300 \<le> r \<and> r \<le> 1000 | _ \<Rightarrow> False)"

text \<open>Append the timestamp, evicting the oldest entry if the history is over capacity.\<close>

definition spec_pushOnset :: "jsnum list \<Rightarrow> jsnum \<Rightarrow> jsnum list" where
  "spec_pushOnset history t =
     (if length (history @ [t]) > 16 then tl (history @ [t]) else history @ [t])"

text \<open>
  60000 divided by the mean of the valid intervals; the previous value when no interval
  is valid.
\<close>

definition spec_bpm :: "jsnum \<Rightarrow> jsnum list \<Rightarrow> jsnum" where
  "spec_bpm previous history =
     (let valid = filter spec_validInterval (spec_interOnsetIntervals history)
      in if valid = [] then previous else Fin (60000 / mean (map val valid)))"

text \<open>A reported tempo of the range [60,200].\<close>

definition inBpmRange :: "jsnum \<Rightarrow> bool" where
  "inBpmRange x = (case x of Fin r \<Rightarrow> 60 \<le> r \<and> r \<le> 200 | _ \<Rightarrow> False)"

text \<open>
  The specification's account of the normalisation, in its words: a level in dB is
  clamped to the range from -100 dB to 0 dB (\<open>NaN\<close> is not a level and has no clamped
  value), and the clamped level is mapped affinely onto [0,1].
\<close>

definition spec_clampDb :: "jsnum \<Rightarrow> real option" where
  "spec_clampDb db = (case db of
       Fin r \<Rightarrow> Some (max (- 100) (min 0 r))
     | NegZero \<Rightarrow> Some 0
     | PosInf \<Rightarrow> Some 0
     | NegInf \<Rightarrow> Some (- 100)
     | NaN \<Rightarrow> None)"

definition spec_affineDb :: "real \<Rightarrow> real" where
  "spec_affineDb c = (c - (- 100)) / (0 - (- 100))"

definition spec_normalizedBin :: "jsnum \<Rightarrow> jsnum \<Rightarrow> bool" where
  "spec_normalizedBin db out = (map_option (\<lambda>c. Fin (spec_affineDb c)) (spec_clampDb db) = Some out)"

text \<open>The two buffers of the analyzer have the size the constructor gave them.\<close>

definition buffersAllocated :: "AudioAnalyzer \<Rightarrow> bool" where
  "buffersAllocated a =
     (length (fftData a) = FFT_SIZE div 2 \<and> length (normalizedFft a) = FFT_SIZE div 2)"


section \<open>The band sums\<close>

lemma sumBins_stop: "\<not> jsLt i e \<Longrightarrow> sumBins xs e i sm reads = Some (sm, reads)"
  by (subst sumBins.simps) simp

lemma sumBins_step:
  "jsLt i e \<Longrightarrow> sumBins xs e i sm reads =
     sumBins xs e (jsAdd i (Fin 1)) (jsAdd sm (toNumber (jsIndex xs i))) (reads @ [i])"
  by (subst sumBins.simps) simp

lemma sumBins_nat:
  "s \<le> e \<Longrightarrow> e \<le> length xs \<Longrightarrow>
   sumBins xs (Fin (real e)) (Fin (real s)) sm reads =
     Some (foldl jsAdd sm (take (e - s) (drop s xs)), reads @ map (\<lambda>k. Fin (real k)) [s..<e])"
proof (induction "e - s" arbitrary: s sm reads)
  case 0
  then show ?case by (simp add: sumBins_stop)
next
  case (Suc n)
  then have lt: "s < e" and sl: "s < length xs" by auto
  have idx: "toNumber (jsIndex xs (Fin (real s))) = xs ! s" using sl by simp
  have step: "jsAdd (Fin (real s)) (Fin 1) = Fin (real (Suc s))" by (simp add: add.commute)
  have IH: "sumBins xs (Fin (real e)) (Fin (real (Suc s))) (jsAdd sm (xs ! s)) (reads @ [Fin (real s)]) =
     Some (foldl jsAdd (jsAdd sm (xs ! s)) (take (e - Suc s) (drop (Suc s) xs)),
           (reads @ [Fin (real s)]) @ map (\<lambda>k. Fin (real k)) [Suc s..<e])"
    using Suc by (intro Suc.hyps(1)) auto
  have tk: "take (e - s) (drop s xs) = xs ! s # take (e - Suc s) (drop (Suc s) xs)"
    using lt sl by (metis Cons_nth_drop_Suc Suc_diff_Suc take_Suc_Cons)
  have up: "[s..<e] = s # [Suc s..<e]" using lt by (simp add: upt_conv_Cons)
  have "sumBins xs (Fin (real e)) (Fin (real s)) sm reads =
        sumBins xs (Fin (real e)) (jsAdd (Fin (real s)) (Fin 1))
          (jsAdd sm (toNumber (jsIndex xs (Fin (real s))))) (reads @ [Fin (real s)])"
    using lt by (intro sumBins_step) simp
  also have "\<dots> = Some (foldl jsAdd (jsAdd sm (xs ! s)) (take (e - Suc s) (drop (Suc s) xs)),
           (reads @ [Fin (real s)]) @ map (\<lambda>k. Fin (real k)) [Suc s..<e])"
    by (simp only: idx step IH)
  finally show ?case by (simp add: tk up)
qed

lemma sumBins_negzero:
  assumes "0 < e" "e \<le> length xs"
  shows "sumBins xs (Fin (real e)) NegZero sm reads =
     Some (foldl jsAdd sm (take e xs), reads @ NegZero # map (\<lambda>k. Fin (real k)) [1..<e])"
proof -
  have ne: "xs \<noteq> []" using assms by auto
  have idx: "toNumber (jsIndex xs NegZero) = xs ! 0" using ne by simp
  have step: "jsAdd NegZero (Fin 1) = Fin (real 1)" by simp
  have tk: "take e xs = xs ! 0 # take (e - 1) (drop 1 xs)"
    using assms ne by (cases xs; cases e) (simp_all)
  have "sumBins xs (Fin (real e)) NegZero sm reads =
        sumBins xs (Fin (real e)) (jsAdd NegZero (Fin 1))
          (jsAdd sm (toNumber (jsIndex xs NegZero))) (reads @ [NegZero])"
    using assms by (intro sumBins_step) simp
  also have "\<dots> = sumBins xs (Fin (real e)) (Fin (real 1)) (jsAdd sm (xs ! 0)) (reads @ [NegZero])"
    by (simp only: idx step)
  also have "\<dots> = Some (foldl jsAdd (jsAdd sm (xs ! 0)) (take (e - 1) (drop 1 xs)),
                        (reads @ [NegZero]) @ map (\<lambda>k. Fin (real k)) [1..<e])"
    using assms by (intro sumBins_nat) auto
  finally show ?thesis by (simp add: tk)
qed

lemma bandEnergyRun_degenerate:
  "\<not> validWindow xs s e \<Longrightarrow> bandEnergyRun xs s e = Some (Fin 0, [])"
  by (cases s; cases e)
     (auto simp: validWindow_def bandEnergyRun_def jsGe_def jsLe_def jsGt_def jsLength_def
                 jsNat_def jsSub_def sumBins_stop)

lemma validWindow_cases:
  assumes "isBinIndex s" "isBinIndex e" "validWindow xs s e"
  obtains a b where "a < b" "b \<le> length xs" "e = Fin (real b)" "s = Fin (real a)"
  | b where "0 < b" "b \<le> length xs" "e = Fin (real b)" "s = NegZero"
proof -
  from assms(3) obtain q where e: "e = Fin q" and q: "q \<le> real (length xs)"
    by (cases s; cases e) (auto simp: validWindow_def jsLe_def jsLength_def jsNat_def)
  from assms(2) e obtain j where qj: "q = of_int j" by (auto simp: isBinIndex_def)
  have jl: "j \<le> int (length xs)" using q qj by simp
  show ?thesis
  proof (cases s)
    case (Fin r)
    with assms e have r: "0 \<le> r" "r < q"
      by (auto simp: validWindow_def jsLe_def)
    from assms(1) Fin obtain i where ri: "r = of_int i" by (auto simp: isBinIndex_def)
    have ij: "0 \<le> i" "i < j" using r ri qj by simp_all
    have "nat i < nat j" "nat j \<le> length xs" "r = real (nat i)" "q = real (nat j)"
      using ij jl ri qj by simp_all
    then show ?thesis using that(1)[of "nat i" "nat j"] Fin e by simp
  next
    case NegZero
    with assms e have "0 < q" by (auto simp: validWindow_def)
    then have "0 < j" using qj by simp
    then have "0 < nat j" "nat j \<le> length xs" "q = real (nat j)" using jl qj by simp_all
    then show ?thesis using that(2)[of "nat j"] NegZero e by simp
  qed (use assms e in \<open>auto simp: validWindow_def jsLe_def\<close>)
qed

lemma bandEnergyRun_nat:
  assumes "a < b" "b \<le> length xs"
  shows "bandEnergyRun xs (Fin (real a)) (Fin (real b)) =
     Some (jsDiv (foldl jsAdd (Fin 0) (take (b - a) (drop a xs))) (Fin (real (b - a))),
           map (\<lambda>k. Fin (real k)) [a..<b])"
proof -
  have g: "\<not> (jsGe (Fin (real a)) (Fin (real b)) \<or> jsLt (Fin (real a)) (Fin 0) \<or>
              jsGt (Fin (real b)) (jsLength xs))"
    using assms by (simp add: jsGe_def jsLe_def jsGt_def jsLength_def jsNat_def)
  have c: "jsSub (Fin (real b)) (Fin (real a)) = Fin (real (b - a))"
    using assms by (simp add: jsSub_def of_nat_diff)
  have p: "jsGt (Fin (real (b - a))) (Fin 0)" using assms by (simp add: jsGt_def)
  have l: "sumBins xs (Fin (real b)) (Fin (real a)) (Fin 0) [] =
     Some (foldl jsAdd (Fin 0) (take (b - a) (drop a xs)), [] @ map (\<lambda>k. Fin (real k)) [a..<b])"
    using assms by (intro sumBins_nat) auto
  show ?thesis
    unfolding bandEnergyRun_def by (simp only: g c l p Let_def if_False if_True option.case prod.case append_Nil)
qed

lemma bandEnergyRun_negzero:
  assumes "0 < b" "b \<le> length xs"
  shows "bandEnergyRun xs NegZero (Fin (real b)) =
     Some (jsDiv (foldl jsAdd (Fin 0) (take b xs)) (Fin (real b)),
           NegZero # map (\<lambda>k. Fin (real k)) [1..<b])"
proof -
  have g: "\<not> (jsGe NegZero (Fin (real b)) \<or> jsLt NegZero (Fin 0) \<or>
              jsGt (Fin (real b)) (jsLength xs))"
    using assms by (simp add: jsGe_def jsLe_def jsGt_def jsLength_def jsNat_def)
  have c: "jsSub (Fin (real b)) NegZero = Fin (real b)"
    by (simp add: jsSub_def)
  have p: "jsGt (Fin (real b)) (Fin 0)" using assms by (simp add: jsGt_def)
  have l: "sumBins xs (Fin (real b)) NegZero (Fin 0) [] =
     Some (foldl jsAdd (Fin 0) (take b xs), [] @ NegZero # map (\<lambda>k. Fin (real k)) [1..<b])"
    using assms by (intro sumBins_negzero) auto
  show ?thesis
    unfolding bandEnergyRun_def by (simp only: g c l p Let_def if_False if_True option.case prod.case append_Nil)
qed

lemma foldl_jsAdd_finite:
  "\<forall>x\<in>set ys. isFinite x \<Longrightarrow> foldl jsAdd (Fin c) ys = Fin (c + sum_list (map val ys))"
proof (induction ys arbitrary: c)
  case Nil then show ?case by simp
next
  case (Cons y ys)
  then have "isFinite y" by simp
  then have "jsAdd (Fin c) y = Fin (c + val y)" by (cases y) (auto simp: isFinite_def)
  with Cons show ?case by (simp add: add.assoc)
qed

lemma validWindow_guard:
  "validWindow xs s e \<Longrightarrow>
     \<not> (jsGe s e \<or> jsLt s (Fin 0) \<or> jsGt e (jsLength xs))"
  by (auto simp: validWindow_def jsGe_def jsLe_def jsGt_def)

lemma calculateBandEnergy_value:
  assumes "\<forall>x\<in>set xs. isFinite x" "isBinIndex s" "isBinIndex e"
  shows "calculateBandEnergy xs s e =
     Some (if validWindow xs s e then Fin (mean (map val (binsInRange xs s e))) else Fin 0)"
proof (cases "validWindow xs s e")
  case False
  then show ?thesis by (simp add: calculateBandEnergy_def bandEnergyRun_degenerate)
next
  case True
  from assms(2,3) True show ?thesis
  proof (cases rule: validWindow_cases)
    case (1 a b)
    have fin: "\<forall>x\<in>set (take (b - a) (drop a xs)). isFinite x"
      using assms(1) by (meson in_set_dropD in_set_takeD)
    have len: "length (take (b - a) (drop a xs)) = b - a" using 1 by simp
    have "calculateBandEnergy xs s e =
        Some (jsDiv (Fin (0 + sum_list (map val (take (b - a) (drop a xs))))) (Fin (real (b - a))))"
      using 1 by (simp add: calculateBandEnergy_def bandEnergyRun_nat foldl_jsAdd_finite[OF fin])
    also have "jsDiv (Fin (0 + sum_list (map val (take (b - a) (drop a xs))))) (Fin (real (b - a)))
        = Fin (sum_list (map val (take (b - a) (drop a xs))) / real (b - a))"
      using 1 by (auto simp: jsDiv_def signedZero_def)
    finally show ?thesis using True 1 by (simp add: mean_def binsInRange_def len)
  next
    case (2 b)
    have fin: "\<forall>x\<in>set (take b xs). isFinite x"
      using assms(1) by (meson in_set_takeD)
    have len: "length (take b xs) = b" using 2 by simp
    have "calculateBandEnergy xs s e =
        Some (jsDiv (Fin (0 + sum_list (map val (take b xs)))) (Fin (real b)))"
      using 2 by (simp add: calculateBandEnergy_def bandEnergyRun_negzero foldl_jsAdd_finite[OF fin])
    also have "jsDiv (Fin (0 + sum_list (map val (take b xs)))) (Fin (real b))
        = Fin (sum_list (map val (take b xs)) / real b)"
      using 2 by (auto simp: jsDiv_def signedZero_def)
    finally show ?thesis using True 2 by (simp add: mean_def binsInRange_def len)
  qed
qed

lemma filter_upt_range:
  "b \<le> n \<Longrightarrow> filter (\<lambda>k. a \<le> k \<and> k < b) [0..<n] = [a..<b]"
proof (induction n arbitrary: b)
  case 0 then show ?case by simp
next
  case (Suc n)
  show ?case
  proof (cases "b \<le> n")
    case True
    with Suc show ?thesis by simp
  next
    case False
    with Suc.prems have b: "b = Suc n" by simp
    have "filter (\<lambda>k. a \<le> k \<and> k < b) [0..<n] = filter (\<lambda>k. a \<le> k \<and> k < n) [0..<n]"
      using b by (intro filter_cong) auto
    also have "\<dots> = [a..<n]" by (rule Suc.IH) simp
    finally have "filter (\<lambda>k. a \<le> k \<and> k < b) [0..<n] = [a..<n]" .
    then show ?thesis using b by (cases "a \<le> n") simp_all
  qed
qed

lemma map_nth_slice:
  "b \<le> length xs \<Longrightarrow> map (\<lambda>k. xs ! k) [a..<b] = take (b - a) (drop a xs)"
  by (rule nth_equalityI) auto

lemma spec_binsInRange_nat:
  assumes "a < b" "b \<le> length xs"
  shows "spec_binsInRange xs (Fin (real a)) (Fin (real b)) = take (b - a) (drop a xs)"
proof -
  have "filter (\<lambda>k. jsLe (Fin (real a)) (jsNat k) \<and> jsLt (jsNat k) (Fin (real b))) [0..<length xs]
        = filter (\<lambda>k. a \<le> k \<and> k < b) [0..<length xs]"
    by (rule filter_cong) (auto simp: jsLe_def jsNat_def)
  also have "\<dots> = [a..<b]" using assms(2) by (rule filter_upt_range)
  finally show ?thesis
    using assms by (simp add: spec_binsInRange_def map_nth_slice)
qed

lemma spec_binsInRange_negzero:
  assumes "0 < b" "b \<le> length xs"
  shows "spec_binsInRange xs NegZero (Fin (real b)) = take b xs"
proof -
  have "filter (\<lambda>k. jsLe NegZero (jsNat k) \<and> jsLt (jsNat k) (Fin (real b))) [0..<length xs]
        = filter (\<lambda>k. 0 \<le> k \<and> k < b) [0..<length xs]"
    by (rule filter_cong) (auto simp: jsLe_def jsNat_def)
  also have "\<dots> = [0..<b]" using assms(2) by (rule filter_upt_range)
  finally show ?thesis
    using assms map_nth_slice[of b xs 0] by (simp add: spec_binsInRange_def)
qed

lemma spec_binsInRange_empty:
  "\<not> jsLt s e \<Longrightarrow> spec_binsInRange xs s e = []"
proof -
  assume n: "\<not> jsLt s e"
  have "\<And>k. \<not> (jsLe s (jsNat k) \<and> jsLt (jsNat k) e)"
    using n by (cases s; cases e) (auto simp: jsLe_def jsNat_def)
  then show ?thesis by (simp add: spec_binsInRange_def)
qed

lemma calculateBandEnergy_spec:
  assumes "\<forall>x\<in>set xs. isFinite x" "isBinIndex s" "isBinIndex e"
  shows "calculateBandEnergy xs s e =
     Some (if rangeInsideArray xs s e then spec_bandEnergy xs s e else Fin 0)"
proof (cases "validWindow xs s e")
  case False
  have c: "calculateBandEnergy xs s e = Some (Fin 0)"
    using False by (simp add: calculateBandEnergy_def bandEnergyRun_degenerate)
  show ?thesis
  proof (cases "rangeInsideArray xs s e")
    case True
    with False have "\<not> jsLt s e" by (simp add: validWindow_def rangeInsideArray_def)
    then show ?thesis using c by (simp add: spec_bandEnergy_def spec_binsInRange_empty)
  next
    case False
    then show ?thesis using c by simp
  qed
next
  case True
  then have r: "rangeInsideArray xs s e" by (simp add: validWindow_def rangeInsideArray_def)
  from assms(2,3) True have "spec_binsInRange xs s e = binsInRange xs s e \<and> binsInRange xs s e \<noteq> []"
  proof (cases rule: validWindow_cases)
    case (1 a b)
    then show ?thesis by (simp add: spec_binsInRange_nat binsInRange_def)
  next
    case (2 b)
    then show ?thesis by (auto simp: spec_binsInRange_negzero binsInRange_def)
  qed
  then show ?thesis
    using calculateBandEnergy_value[OF assms] True r by (simp add: spec_bandEnergy_def)
qed

lemma sumBins_real:
  "\<exists>sm' rs. sumBins xs (Fin q) (Fin r) sm reads = Some (sm', reads @ rs)
     \<and> (\<forall>p\<in>set rs. \<exists>k::nat. p = Fin (r + real k) \<and> r + real k < q)"
proof (induction "nat \<lceil>q - r\<rceil>" arbitrary: r sm reads)
  case 0
  then have "\<not> r < q" by (simp add: ceiling_le_zero)
  then have "sumBins xs (Fin q) (Fin r) sm reads = Some (sm, reads @ [])"
    by (simp add: sumBins_stop)
  then show ?case by fastforce
next
  case (Suc n)
  have lt: "r < q"
  proof (rule ccontr)
    assume "\<not> r < q"
    then have "\<lceil>q - r\<rceil> \<le> 0" by (simp add: ceiling_le_zero)
    then show False using Suc(2) by simp
  qed
  have n: "n = nat \<lceil>q - (r + 1)\<rceil>" using Suc(2) by (simp add: algebra_simps) linarith
  have step: "sumBins xs (Fin q) (Fin r) sm reads =
      sumBins xs (Fin q) (Fin (r + 1)) (jsAdd sm (toNumber (jsIndex xs (Fin r)))) (reads @ [Fin r])"
    using lt sumBins_step[of "Fin r" "Fin q" xs sm reads] by simp
  from Suc(1)[OF n, of "jsAdd sm (toNumber (jsIndex xs (Fin r)))" "reads @ [Fin r]"]
  obtain sm' rs where r: "sumBins xs (Fin q) (Fin (r + 1)) (jsAdd sm (toNumber (jsIndex xs (Fin r))))
        (reads @ [Fin r]) = Some (sm', (reads @ [Fin r]) @ rs)"
    and p: "\<forall>p\<in>set rs. \<exists>k::nat. p = Fin (r + 1 + real k) \<and> r + 1 + real k < q"
    by blast
  have "\<forall>p\<in>set (Fin r # rs). \<exists>k::nat. p = Fin (r + real k) \<and> r + real k < q"
  proof
    fix p assume "p \<in> set (Fin r # rs)"
    then consider "p = Fin r" | "p \<in> set rs" by auto
    then show "\<exists>k::nat. p = Fin (r + real k) \<and> r + real k < q"
    proof cases
      case 1
      then have "p = Fin (r + real 0) \<and> r + real 0 < q" using lt by simp
      then show ?thesis by blast
    next
      case 2
      with p obtain k :: nat where "p = Fin (r + 1 + real k)" "r + 1 + real k < q" by blast
      then have "p = Fin (r + real (Suc k)) \<and> r + real (Suc k) < q" by (simp add: algebra_simps)
      then show ?thesis by blast
    qed
  qed
  moreover have "sumBins xs (Fin q) (Fin r) sm reads = Some (sm', reads @ (Fin r # rs))"
    using step r by simp
  ultimately show ?case by blast
qed

lemma sumBins_negzero_real:
  assumes "0 < q"
  shows "\<exists>sm' rs. sumBins xs (Fin q) NegZero sm reads = Some (sm', reads @ NegZero # rs)
     \<and> (\<forall>p\<in>set rs. \<exists>k::nat. p = Fin (1 + real k) \<and> 1 + real k < q)"
proof -
  have step: "sumBins xs (Fin q) NegZero sm reads =
      sumBins xs (Fin q) (Fin 1) (jsAdd sm (toNumber (jsIndex xs NegZero))) (reads @ [NegZero])"
    using assms sumBins_step[of NegZero "Fin q" xs sm reads] by simp
  from sumBins_real[of xs q 1 "jsAdd sm (toNumber (jsIndex xs NegZero))" "reads @ [NegZero]"]
  show ?thesis unfolding step by simp
qed

lemma bandEnergyRun_reads_real:
  "\<exists>r reads. bandEnergyRun xs s e = Some (r, reads)
     \<and> (\<forall>p\<in>set reads. jsLe s p \<and> jsLt p e \<and> jsLe (Fin 0) p \<and> jsLt p (jsLength xs))
     \<and> (isBinIndex s \<longrightarrow> (\<forall>p\<in>set reads. jsIndex xs p \<noteq> None))"
proof (cases "validWindow xs s e")
  case False
  then show ?thesis by (simp add: bandEnergyRun_degenerate)
next
  case True
  note g = validWindow_guard[OF True]
  from True obtain q where e: "e = Fin q" and q: "q \<le> real (length xs)"
    by (cases s; cases e) (auto simp: validWindow_def jsLe_def jsLength_def jsNat_def)
  show ?thesis
  proof (cases s)
    case (Fin r)
    with True e have r: "0 \<le> r" "r < q" by (auto simp: validWindow_def jsLe_def)
    from sumBins_real[of xs q r "Fin 0" "[]"] obtain sm' rs where
      l: "sumBins xs (Fin q) (Fin r) (Fin 0) [] = Some (sm', rs)"
      and p: "\<forall>p\<in>set rs. \<exists>k::nat. p = Fin (r + real k) \<and> r + real k < q" by auto
    have run: "bandEnergyRun xs s e =
        Some (if jsGt (jsSub e s) (Fin 0) then jsDiv sm' (jsSub e s) else Fin 0, rs)"
      using g l unfolding bandEnergyRun_def Let_def Fin e by simp
    have a: "\<forall>p\<in>set rs. jsLe s p \<and> jsLt p e \<and> jsLe (Fin 0) p \<and> jsLt p (jsLength xs)"
      using p r q by (auto simp: Fin e jsLe_def jsLength_def jsNat_def)
    have b: "isBinIndex s \<longrightarrow> (\<forall>p\<in>set rs. jsIndex xs p \<noteq> None)"
    proof (intro impI ballI)
      fix p assume i: "isBinIndex s" and "p \<in> set rs"
      with p obtain k :: nat where k: "p = Fin (r + real k)" "r + real k < q" by blast
      from i Fin obtain j :: int where "r = of_int j" by (auto simp: isBinIndex_def)
      then have "r + real k = of_int (j + int k)" by simp
      then have "r + real k = of_int \<lfloor>r + real k\<rfloor>" by (metis floor_of_int)
      then show "jsIndex xs p \<noteq> None" using k r q by simp
    qed
    show ?thesis using run a b by blast
  next
    case NegZero
    with True e have pos: "0 < q" by (auto simp: validWindow_def)
    from sumBins_negzero_real[OF pos, of xs "Fin 0" "[]"] obtain sm' rs where
      l: "sumBins xs (Fin q) NegZero (Fin 0) [] = Some (sm', NegZero # rs)"
      and p: "\<forall>p\<in>set rs. \<exists>k::nat. p = Fin (1 + real k) \<and> 1 + real k < q" by auto
    have run: "bandEnergyRun xs s e =
        Some (if jsGt (jsSub e s) (Fin 0) then jsDiv sm' (jsSub e s) else Fin 0, NegZero # rs)"
      using g l unfolding bandEnergyRun_def Let_def NegZero e by simp
    have ne: "xs \<noteq> []" using pos q by auto
    have a: "\<forall>p\<in>set (NegZero # rs).
        jsLe s p \<and> jsLt p e \<and> jsLe (Fin 0) p \<and> jsLt p (jsLength xs)"
      using p pos q by (auto simp: NegZero e jsLe_def jsLength_def jsNat_def)
    have b: "\<forall>p\<in>set (NegZero # rs). jsIndex xs p \<noteq> None"
    proof
      fix p assume "p \<in> set (NegZero # rs)"
      then consider "p = NegZero" | "p \<in> set rs" by auto
      then show "jsIndex xs p \<noteq> None"
      proof cases
        case 1 then show ?thesis using ne by simp
      next
        case 2
        with p obtain k :: nat where k: "p = Fin (1 + real k)" "1 + real k < q" by blast
        have "1 + real k = of_int (1 + int k)" by simp
        then have "1 + real k = of_int \<lfloor>1 + real k\<rfloor>" by (metis floor_of_int)
        then show ?thesis using k q by simp
      qed
    qed
    show ?thesis using run a b by blast
  qed (use True e in \<open>auto simp: validWindow_def jsLe_def\<close>)
qed

lemma sum_list_unit:
  "\<forall>x\<in>set ys. inUnit x \<Longrightarrow> 0 \<le> sum_list (map val ys) \<and> sum_list (map val ys) \<le> real (length ys)"
proof (induction ys)
  case Nil then show ?case by simp
next
  case (Cons y ys)
  then have "inUnit y" by simp
  then have "0 \<le> val y \<and> val y \<le> 1" by (cases y) (auto simp: inUnit_def)
  with Cons show ?case by auto
qed

lemma inUnit_isFinite: "inUnit x \<Longrightarrow> isFinite x"
  by (cases x) (auto simp: inUnit_def isFinite_def)

lemma mean_unit:
  assumes "\<forall>x\<in>set ys. inUnit x"
  shows "0 \<le> mean (map val ys) \<and> mean (map val ys) \<le> 1"
proof (cases "ys = []")
  case True then show ?thesis by (simp add: mean_def)
next
  case False
  then have "0 < real (length ys)" by simp
  with sum_list_unit[OF assms] show ?thesis
    by (simp add: mean_def divide_le_eq)
qed

lemma calculateBandEnergy_unit:
  assumes "\<forall>x\<in>set xs. inUnit x" "isBinIndex s" "isBinIndex e"
  shows "\<exists>r. calculateBandEnergy xs s e = Some (Fin r) \<and> 0 \<le> r \<and> r \<le> 1"
proof -
  have fin: "\<forall>x\<in>set xs. isFinite x" using assms(1) inUnit_isFinite by blast
  have "\<forall>x\<in>set (binsInRange xs s e). inUnit x"
    using assms(1) unfolding binsInRange_def by (meson in_set_dropD in_set_takeD)
  from mean_unit[OF this] calculateBandEnergy_value[OF fin assms(2,3)]
  show ?thesis by auto
qed

lemma isBinIndex_jsRound: "isBinIndex (jsRound x)"
  by (cases x) (auto simp: isBinIndex_def)

lemma isBinIndex_frequencyToBin: "isBinIndex (frequencyToBin f n rate)"
  by (simp add: frequencyToBin_def isBinIndex_jsRound)

lemma isBinIndex_jsMin_length: "isBinIndex a \<Longrightarrow> isBinIndex (jsMin a (jsLength xs))"
  by (auto simp: jsMin_def isBinIndex_def jsLength_def jsNat_def)

lemma weighted_total:
  assumes "0 \<le> l" "l \<le> 1" "0 \<le> m" "m \<le> 1" "0 \<le> h" "h \<le> 1"
  shows "jsMin (Fin 1) (jsMax (Fin 0)
           (jsAdd (jsAdd (jsMul (Fin l) LOW_WEIGHT) (jsMul (Fin m) MID_WEIGHT))
                  (jsMul (Fin h) HIGH_WEIGHT)))
         = Fin (min 1 (max 0 (5 / 10 * l + 3 / 10 * m + 2 / 10 * h)))"
proof -
  have a: "jsMul (Fin l) LOW_WEIGHT = Fin (5 / 10 * l)"
    using assms by (auto simp: jsMul_def LOW_WEIGHT_def signedZero_def)
  have b: "jsMul (Fin m) MID_WEIGHT = Fin (3 / 10 * m)"
    using assms by (auto simp: jsMul_def MID_WEIGHT_def signedZero_def)
  have c: "jsMul (Fin h) HIGH_WEIGHT = Fin (2 / 10 * h)"
    using assms by (auto simp: jsMul_def HIGH_WEIGHT_def signedZero_def)
  show ?thesis unfolding a b c by (auto simp: jsMin_def jsMax_def)
qed

lemma calculateEnergyBands_unit:
  assumes "\<forall>x\<in>set xs. inUnit x"
  shows "\<exists>e. calculateEnergyBands xs n rate = Some e
     \<and> inUnit (low e) \<and> inUnit (mid e) \<and> inUnit (high e) \<and> inUnit (total e)
     \<and> total e = Fin (min 1 (max 0 (5 / 10 * val (low e) + 3 / 10 * val (mid e) + 2 / 10 * val (high e))))"
proof -
  obtain l where l: "calculateBandEnergy xs (frequencyToBin LOW_FREQ_MIN n rate)
      (frequencyToBin LOW_FREQ_MAX n rate) = Some (Fin l)" "0 \<le> l" "l \<le> 1"
    using calculateBandEnergy_unit[OF assms isBinIndex_frequencyToBin isBinIndex_frequencyToBin]
    by blast
  obtain m where m: "calculateBandEnergy xs (frequencyToBin MID_FREQ_MIN n rate)
      (frequencyToBin MID_FREQ_MAX n rate) = Some (Fin m)" "0 \<le> m" "m \<le> 1"
    using calculateBandEnergy_unit[OF assms isBinIndex_frequencyToBin isBinIndex_frequencyToBin]
    by blast
  obtain h where h: "calculateBandEnergy xs (frequencyToBin HIGH_FREQ_MIN n rate)
      (jsMin (frequencyToBin HIGH_FREQ_MAX n rate) (jsLength xs)) = Some (Fin h)" "0 \<le> h" "h \<le> 1"
    using calculateBandEnergy_unit[OF assms isBinIndex_frequencyToBin
        isBinIndex_jsMin_length[OF isBinIndex_frequencyToBin]]
    by blast
  note w = weighted_total[OF l(2,3) m(2,3) h(2,3)]
  have "calculateEnergyBands xs n rate = Some \<lparr> low = Fin l, mid = Fin m, high = Fin h,
      total = Fin (min 1 (max 0 (5 / 10 * l + 3 / 10 * m + 2 / 10 * h))) \<rparr>"
    unfolding calculateEnergyBands_def Let_def by (simp only: l(1) m(1) h(1) w option.case)
  then show ?thesis using l m h by (simp add: inUnit_def)
qed


text \<open>
  The three bands of the analyzer as it is configured (2048-point FFT, 1024 bins) at the
  default sample rate of 44100 Hz: the bins 1 to 11, 12 to 185 and 186 to 928.
\<close>

lemma default_bins:
  "frequencyToBin LOW_FREQ_MIN (jsNat FFT_SIZE) SAMPLE_RATE = Fin 1"
  "frequencyToBin LOW_FREQ_MAX (jsNat FFT_SIZE) SAMPLE_RATE = Fin 12"
  "frequencyToBin MID_FREQ_MIN (jsNat FFT_SIZE) SAMPLE_RATE = Fin 12"
  "frequencyToBin MID_FREQ_MAX (jsNat FFT_SIZE) SAMPLE_RATE = Fin 186"
  "frequencyToBin HIGH_FREQ_MIN (jsNat FFT_SIZE) SAMPLE_RATE = Fin 186"
  "frequencyToBin HIGH_FREQ_MAX (jsNat FFT_SIZE) SAMPLE_RATE = Fin 929"
  by (simp_all add: frequencyToBin_def LOW_FREQ_MIN_def LOW_FREQ_MAX_def MID_FREQ_MIN_def
        MID_FREQ_MAX_def HIGH_FREQ_MIN_def HIGH_FREQ_MAX_def jsNat_def FFT_SIZE_def
        SAMPLE_RATE_def jsDiv_def)

lemma bands_at_default_rate:
  assumes "length xs = 1024" "\<forall>x\<in>set xs. isFinite x"
  shows "\<exists>e. calculateEnergyBands xs (jsNat FFT_SIZE) SAMPLE_RATE = Some e
     \<and> low e = Fin (mean (map val (take 11 (drop 1 xs))))
     \<and> mid e = Fin (mean (map val (take 174 (drop 12 xs))))
     \<and> high e = Fin (mean (map val (take 743 (drop 186 xs))))"
proof -
  have i: "isBinIndex (Fin 1)" "isBinIndex (Fin 12)" "isBinIndex (Fin 186)" "isBinIndex (Fin 929)"
    by (simp_all add: isBinIndex_def)
  have m: "jsMin (Fin 929) (jsLength xs) = Fin 929"
    using assms(1) by (simp add: jsMin_def jsLength_def jsNat_def)
  have w: "validWindow xs (Fin 1) (Fin 12)" "validWindow xs (Fin 12) (Fin 186)"
      "validWindow xs (Fin 186) (Fin 929)"
    using assms(1) by (simp_all add: validWindow_def jsLe_def jsLength_def jsNat_def)
  have l: "calculateBandEnergy xs (Fin 1) (Fin 12) = Some (Fin (mean (map val (take 11 (drop 1 xs)))))"
    using calculateBandEnergy_value[OF assms(2) i(1) i(2)] w(1) by (simp add: binsInRange_def)
  have mi: "calculateBandEnergy xs (Fin 12) (Fin 186) = Some (Fin (mean (map val (take 174 (drop 12 xs)))))"
    using calculateBandEnergy_value[OF assms(2) i(2) i(3)] w(2) by (simp add: binsInRange_def)
  have h: "calculateBandEnergy xs (Fin 186) (Fin 929) = Some (Fin (mean (map val (take 743 (drop 186 xs)))))"
    using calculateBandEnergy_value[OF assms(2) i(3) i(4)] w(3) by (simp add: binsInRange_def)
  show ?thesis
    unfolding calculateEnergyBands_def Let_def default_bins m by (simp add: l mi h)
qed

section \<open>The detector\<close>

lemma spec_validInterval_iff:
  "(jsGe x MIN_ONSET_INTERVAL_MS \<and> jsLe x MAX_ONSET_INTERVAL_MS) = spec_validInterval x"
  by (cases x)
     (auto simp: spec_validInterval_def jsGe_def jsLe_def MIN_ONSET_INTERVAL_MS_def MAX_ONSET_INTERVAL_MS_def)

lemma collectIntervals_eq:
  "collectIntervals onsets i acc =
     acc @ filter spec_validInterval (map (\<lambda>k. jsSub (onsets ! k) (onsets ! (k - 1))) [i..<length onsets])"
proof (induction onsets i acc rule: collectIntervals.induct)
  case (1 onsets i intervals)
  show ?case
  proof (cases "i < length onsets")
    case True
    then have up: "[i..<length onsets] = i # [i + 1..<length onsets]" by (simp add: upt_conv_Cons)
    show ?thesis
      apply (subst collectIntervals.simps)
      using True 1 by (simp add: up spec_validInterval_iff Let_def del: collectIntervals.simps)
  next
    case False
    then show ?thesis by (subst collectIntervals.simps) simp
  qed
qed

lemma intervals_zip:
  "map (\<lambda>k. jsSub (onsets ! k) (onsets ! (k - 1))) [1..<length onsets] = spec_interOnsetIntervals onsets"
  unfolding spec_interOnsetIntervals_def
  by (rule nth_equalityI) (auto simp: nth_tl)

lemma collectIntervals_spec:
  "collectIntervals onsets 1 [] = filter spec_validInterval (spec_interOnsetIntervals onsets)"
  by (simp only: collectIntervals_eq intervals_zip append_Nil)

lemma spec_validInterval_sum:
  "\<forall>x\<in>set v. spec_validInterval x \<Longrightarrow>
     300 * real (length v) \<le> sum_list (map val v) \<and> sum_list (map val v) \<le> 1000 * real (length v)"
proof (induction v)
  case Nil then show ?case by simp
next
  case (Cons y ys)
  then have "spec_validInterval y" by simp
  then have "300 \<le> val y \<and> val y \<le> 1000" by (cases y) (auto simp: spec_validInterval_def)
  with Cons show ?case by (auto simp: algebra_simps)
qed

lemma spec_validInterval_isFinite: "spec_validInterval x \<Longrightarrow> isFinite x"
  by (cases x) (auto simp: spec_validInterval_def isFinite_def)

lemma mean_valid:
  assumes "\<forall>x\<in>set v. spec_validInterval x" "v \<noteq> []"
  shows "300 \<le> mean (map val v) \<and> mean (map val v) \<le> 1000"
proof -
  have "0 < real (length v)" using assms(2) by simp
  with spec_validInterval_sum[OF assms(1)] show ?thesis
    by (simp add: mean_def le_divide_eq divide_le_eq mult.commute)
qed

lemma constrainBpm_Fin:
  "60 \<le> b \<Longrightarrow> b \<le> 200 \<Longrightarrow> constrainBpm (Fin b) = Fin b"
  by (auto simp: constrainBpm_def jsMin_def jsMax_def MIN_BPM_def MAX_BPM_def)

lemma bpm_of_mean:
  assumes "300 \<le> (m::real)" "m \<le> 1000"
  shows "60 \<le> 60000 / m \<and> 60000 / m \<le> 200"
  using assms by (simp add: le_divide_eq divide_le_eq)

lemma updateBpm_spec:
  "updateBpm d = d\<lparr>currentBpm := spec_bpm (currentBpm d) (onsetTimes d)\<rparr>"
proof -
  define v where "v = filter spec_validInterval (spec_interOnsetIntervals (onsetTimes d))"
  have allv: "\<forall>x\<in>set v. spec_validInterval x" by (simp add: v_def)
  show ?thesis
  proof (cases "v = []")
    case True
    then show ?thesis
      unfolding updateBpm_def collectIntervals_spec spec_bpm_def v_def[symmetric]
      by simp
  next
    case False
    then have n: "0 < real (length v)" by simp
    have fin: "\<forall>x\<in>set v. isFinite x" using allv spec_validInterval_isFinite by blast
    note mv = mean_valid[OF allv False]
    have s: "foldl (\<lambda>a b. jsAdd a b) (Fin 0) v = Fin (sum_list (map val v))"
      using foldl_jsAdd_finite[OF fin] by simp
    have spos: "0 < sum_list (map val v)" using spec_validInterval_sum[OF allv] n by linarith
    have avg: "jsDiv (Fin (sum_list (map val v))) (jsLength v) = Fin (mean (map val v))"
      using n spos by (auto simp: jsDiv_def jsLength_def jsNat_def mean_def)
    have b: "jsDiv (Fin 60000) (Fin (mean (map val v))) = Fin (60000 / mean (map val v))"
      using mv by (auto simp: jsDiv_def)
    have c: "constrainBpm (Fin (60000 / mean (map val v))) = Fin (60000 / mean (map val v))"
      using bpm_of_mean[OF mv[THEN conjunct1] mv[THEN conjunct2]] by (simp add: constrainBpm_Fin)
    show ?thesis using False
      unfolding updateBpm_def collectIntervals_spec spec_bpm_def v_def[symmetric] Let_def
      by (simp add: s avg b c)
  qed
qed

lemma spec_bpm_short: "length h < 2 \<Longrightarrow> spec_bpm p h = p"
  by (cases h; cases "tl h") (auto simp: spec_bpm_def spec_interOnsetIntervals_def)

lemma spec_bpm_range: "inBpmRange p \<Longrightarrow> inBpmRange (spec_bpm p h)"
proof -
  assume p: "inBpmRange p"
  define v where "v = filter spec_validInterval (spec_interOnsetIntervals h)"
  have allv: "\<forall>x\<in>set v. spec_validInterval x" by (simp add: v_def)
  show ?thesis
  proof (cases "v = []")
    case True then show ?thesis using p by (simp add: spec_bpm_def v_def[symmetric])
  next
    case False
    note mv = mean_valid[OF allv False]
    from bpm_of_mean[OF mv[THEN conjunct1] mv[THEN conjunct2]] False
    show ?thesis by (simp add: spec_bpm_def v_def[symmetric] inBpmRange_def)
  qed
qed

lemma onset_step:
  assumes "fst (processEnergy d en t)"
  shows "snd (processEnergy d en t) =
     d\<lparr>lastEnergy := en, lastOnsetTime := t, onsetTimes := spec_pushOnset (onsetTimes d) t,
       currentBpm := spec_bpm (currentBpm d) (spec_pushOnset (onsetTimes d) t)\<rparr>"
  using assms
  by (auto simp: processEnergy_def Let_def updateBpm_spec spec_pushOnset_def ONSET_HISTORY_SIZE_def
                 spec_bpm_short not_le)

lemma quiet_step:
  assumes "\<not> fst (processEnergy d en t)"
  shows "snd (processEnergy d en t) = d\<lparr>lastEnergy := en\<rparr>"
  using assms by (auto simp: processEnergy_def Let_def)


lemma step_range:
  "inBpmRange (currentBpm d) \<Longrightarrow> inBpmRange (currentBpm (snd (processEnergy d en t)))"
  by (cases "fst (processEnergy d en t)")
     (simp_all add: onset_step quiet_step spec_bpm_range)

lemma runCall_range: "inBpmRange (currentBpm d) \<Longrightarrow> inBpmRange (currentBpm (runCall d c))"
proof (cases c)
  case (ProcessEnergy en t)
  assume "inBpmRange (currentBpm d)"
  then show ?thesis using ProcessEnergy by (simp add: step_range)
next
  case Reset
  then show ?thesis by (simp add: reset_def inBpmRange_def)
qed

lemma foldl_runCall_range:
  "inBpmRange (currentBpm d) \<Longrightarrow> inBpmRange (currentBpm (foldl runCall d calls))"
  by (induction calls arbitrary: d) (simp_all add: runCall_range)

lemma getBpm_range: "inBpmRange (getBpm (runCalls calls))"
  unfolding getBpm_def runCalls_def
  by (rule foldl_runCall_range) (simp add: newBpmDetector_def inBpmRange_def)

lemma reset_new: "reset d = newBpmDetector"
  by (cases d) (simp add: reset_def newBpmDetector_def)


section \<open>The analyzer\<close>

lemma normalize_step:
  "db \<noteq> NaN \<Longrightarrow>
   spec_normalizedBin db (jsDiv (jsSub (jsMax (Fin (- 100)) (jsMin (Fin 0) db)) (Fin (- 100)))
                          (jsSub (Fin 0) (Fin (- 100))))"
  by (cases db)
     (auto simp: spec_normalizedBin_def spec_clampDb_def spec_affineDb_def jsMin_def jsMax_def jsSub_def jsDiv_def
                 signedZero_def)

lemma spec_normalizedBin_unit: "spec_normalizedBin db out \<Longrightarrow> inUnit out"
  by (cases db) (auto simp: spec_normalizedBin_def spec_clampDb_def spec_affineDb_def inUnit_def)

lemma spec_normalizedBin_all_unit: "list_all2 spec_normalizedBin xs ys \<Longrightarrow> \<forall>y\<in>set ys. inUnit y"
  by (induction rule: list_all2_induct) (auto dest: spec_normalizedBin_unit)

lemma normalizeLoop_length: "length (normalizeLoop data i out) = length out"
proof (induction data i out rule: normalizeLoop.induct)
  case (1 data i out)
  show ?case
    apply (subst normalizeLoop.simps)
    using 1 by (simp add: Let_def del: normalizeLoop.simps)
qed

lemma normalizeLoop_nth:
  "length out = length data \<Longrightarrow> NaN \<notin> set data \<Longrightarrow> k < length data \<Longrightarrow>
   (if i \<le> k then spec_normalizedBin (data ! k) (normalizeLoop data i out ! k)
    else normalizeLoop data i out ! k = out ! k)"
proof (induction data i out rule: normalizeLoop.induct)
  case (1 data i out)
  show ?case
  proof (cases "i < length data")
    case False
    then show ?thesis using 1(4) by (subst normalizeLoop.simps, subst (2) normalizeLoop.simps) simp
  next
    case True
    let ?v = "jsDiv (jsSub (jsMax (Fin (- 100)) (jsMin (Fin 0) (data ! i))) (Fin (- 100)))
                          (jsSub (Fin 0) (Fin (- 100)))"
    have unf: "normalizeLoop data i out = normalizeLoop data (i + 1) (out[i := ?v])"
      by (subst normalizeLoop.simps) (simp add: True Let_def del: normalizeLoop.simps)
    have IH: "if i + 1 \<le> k then spec_normalizedBin (data ! k) (normalizeLoop data (i + 1) (out[i := ?v]) ! k)
              else normalizeLoop data (i + 1) (out[i := ?v]) ! k = (out[i := ?v]) ! k"
      using 1(1)[OF True refl refl refl refl refl] 1(2,3,4) by simp
    have ok: "spec_normalizedBin (data ! i) ?v"
      using 1(3) True by (intro normalize_step) (metis nth_mem)
    show ?thesis
    proof (cases "i \<le> k")
      case False
      then show ?thesis using IH unf by simp
    next
      case ik: True
      show ?thesis
      proof (cases "i = k")
        case True
        then show ?thesis using IH unf ok 1(2,4) by simp
      next
        case False
        then show ?thesis using IH unf ik by simp
      qed
    qed
  qed
qed

lemma normalizeLoop_spec:
  assumes "length out = length data" "NaN \<notin> set data"
  shows "list_all2 spec_normalizedBin data (normalizeLoop data 0 out)"
  unfolding list_all2_conv_all_nth
  using normalizeLoop_nth[OF assms, where i = 0] assms(1)
  by (simp add: normalizeLoop_length del: normalizeLoop.simps)

lemma getFloatFrequencyData_full:
  "length frame = length array \<Longrightarrow> getFloatFrequencyData frame array = frame"
  by (simp add: getFloatFrequencyData_def)

lemma silent_branch:
  "\<not> isConnected a \<or> analyserNode a = None \<Longrightarrow>
     getAnalysis a now frame = Some (createSilentAnalysis now, a)"
  by (auto simp: getAnalysis_def)

lemma buffers_new: "buffersAllocated newAudioAnalyzer"
  by (simp add: buffersAllocated_def newAudioAnalyzer_def newFloat32Array_def)

lemma buffers_connect: "buffersAllocated a \<Longrightarrow> buffersAllocated (connect a c src f)"
  by (simp add: buffersAllocated_def connect_def Let_def)

lemma buffers_disconnect: "buffersAllocated a \<Longrightarrow> buffersAllocated (disconnect a)"
  by (simp add: buffersAllocated_def disconnect_def stopAnalysisLoop_def Let_def)

lemma getAnalysis_connected:
  assumes "buffersAllocated a" "isConnected a" "analyserNode a \<noteq> None"
    "length frame = FFT_SIZE div 2" "NaN \<notin> set frame"
  shows "\<exists>r a'. getAnalysis a now frame = Some (r, a')
      \<and> fft r = normalizedFft a' \<and> fftData a' = frame
      \<and> list_all2 spec_normalizedBin frame (fft r)
      \<and> buffersAllocated a'"
proof -
  define a1 where "a1 = a\<lparr>fftData := getFloatFrequencyData frame (fftData a)\<rparr>"
  define a2 where "a2 = normalizeFftData a1"
  have f1: "fftData a1 = frame"
    using assms(1,4) by (simp add: a1_def buffersAllocated_def getFloatFrequencyData_full)
  have n1: "length (normalizedFft a1) = length frame"
    using assms(1,4) by (simp add: a1_def buffersAllocated_def)
  have n2: "normalizedFft a2 = normalizeLoop frame 0 (normalizedFft a1)"
    by (simp add: a2_def normalizeFftData_def f1)
  have spec: "list_all2 spec_normalizedBin frame (normalizedFft a2)"
    unfolding n2 using n1 assms(5) by (intro normalizeLoop_spec) auto
  have unit: "\<forall>x\<in>set (normalizedFft a2). inUnit x"
    using spec by (rule spec_normalizedBin_all_unit)
  obtain e where e: "calculateEnergyBands (normalizedFft a2) (jsNat FFT_SIZE)
      (case audioContext a2 of None \<Rightarrow> SAMPLE_RATE | Some c \<Rightarrow> sampleRate c) = Some e"
    using calculateEnergyBands_unit[OF unit] by blast
  obtain b d where bd: "processEnergy (bpmDetector a2) (total e) now = (b, d)"
    by (cases "processEnergy (bpmDetector a2) (total e) now")
  have res: "getAnalysis a now frame = Some (\<lparr> timestamp = now, fft = normalizedFft a2, energy = e,
           bpm = getBpm d, beat = b \<rparr>, a2\<lparr>bpmDetector := d\<rparr>)"
    using assms(2,3) e bd unfolding getAnalysis_def Let_def a2_def[symmetric] a1_def[symmetric]
    by auto
  have f2: "fftData a2 = frame" by (simp add: a2_def normalizeFftData_def f1)
  have len2: "length (normalizedFft a2) = length frame"
    using spec by (simp add: list_all2_lengthD)
  show ?thesis using res spec f2 len2 assms(4) by (simp add: buffersAllocated_def)
qed



section \<open>The claims\<close>

text \<open>
  C1. For every spectrum whose bins all lie in [0,1], and whatever the FFT size and the
  sample rate are, \<open>calculateEnergyBands\<close> returns, and the \<open>low\<close>, \<open>mid\<close>, \<open>high\<close> and
  \<open>total\<close> it returns all lie in [0,1]; \<open>total\<close> is \<open>0.5 * low + 0.3 * mid + 0.2 * high\<close>
  clamped to [0,1].
\<close>

theorem calculateEnergyBands_weighted_total:
  assumes "list_all inUnit xs"
  shows "\<exists>e. calculateEnergyBands xs n rate = Some e
     \<and> inUnit (low e) \<and> inUnit (mid e) \<and> inUnit (high e) \<and> inUnit (total e)
     \<and> total e = Fin (min 1 (max 0 (5 / 10 * val (low e) + 3 / 10 * val (mid e) + 2 / 10 * val (high e))))"
  using assms calculateEnergyBands_unit[of xs n rate] by (simp add: list_all_iff)

theorem calculateEnergyBands_weighted_total_witness:
  "list_all inUnit [Fin 1, Fin (1 / 2), Fin 0, Fin 1]
   \<and> calculateEnergyBands [Fin 1, Fin (1 / 2), Fin 0, Fin 1] (Fin 8) (Fin 40000)
       = Some \<lparr> low = Fin 0, mid = Fin 1, high = Fin (1 / 2), total = Fin (2 / 5) \<rparr>
   \<and> (\<exists>e. calculateEnergyBands [Fin 1, Fin (1 / 2), Fin 0, Fin 1] (Fin 8) (Fin 40000) = Some e
     \<and> inUnit (low e) \<and> inUnit (mid e) \<and> inUnit (high e) \<and> inUnit (total e)
     \<and> total e = Fin (min 1 (max 0 (5 / 10 * val (low e) + 3 / 10 * val (mid e) + 2 / 10 * val (high e)))))"
proof -
  have h: "list_all inUnit [Fin 1, Fin (1 / 2), Fin 0, Fin 1]" by (simp add: inUnit_def)
  have v: "calculateEnergyBands [Fin 1, Fin (1 / 2), Fin 0, Fin 1] (Fin 8) (Fin 40000)
       = Some \<lparr> low = Fin 0, mid = Fin 1, high = Fin (1 / 2), total = Fin (2 / 5) \<rparr>"
    by code_simp
  show ?thesis using h v calculateEnergyBands_weighted_total[OF h, of "Fin 8" "Fin 40000"] by simp
qed

text \<open>
  C2. After any sequence of \<open>processEnergy\<close> and \<open>reset\<close> calls on a new detector, with any
  numbers for the energies and the timestamps (\<open>NaN\<close> and the infinities included),
  \<open>getBpm\<close> returns a finite number of the range [60,200]; for the empty sequence this is
  the default 120.
\<close>

theorem getBpm_always_in_range: "inBpmRange (getBpm (runCalls calls))"
  by (rule getBpm_range)

theorem getBpm_always_in_range_witness:
  "getBpm (runCalls [ProcessEnergy (Fin (1 / 2)) (Fin 1000), ProcessEnergy (Fin (1 / 10)) (Fin 1100),
                     ProcessEnergy (Fin (1 / 2)) (Fin 1400)]) = Fin 150
   \<and> inBpmRange (getBpm (runCalls [ProcessEnergy (Fin (1 / 2)) (Fin 1000),
                     ProcessEnergy (Fin (1 / 10)) (Fin 1100),
                     ProcessEnergy (Fin (1 / 2)) (Fin 1400)]))"
proof -
  have v: "getBpm (runCalls [ProcessEnergy (Fin (1 / 2)) (Fin 1000), ProcessEnergy (Fin (1 / 10)) (Fin 1100),
                     ProcessEnergy (Fin (1 / 2)) (Fin 1400)]) = Fin 150"
    by code_simp
  show ?thesis
    using v getBpm_always_in_range[of "[ProcessEnergy (Fin (1 / 2)) (Fin 1000),
                     ProcessEnergy (Fin (1 / 10)) (Fin 1100),
                     ProcessEnergy (Fin (1 / 2)) (Fin 1400)]"]
    by simp
qed

text \<open>
  C3. When \<open>processEnergy\<close> declares an onset, the history of onsets becomes the
  previous one with the timestamp appended, the oldest entry dropped if that makes more
  than 16 entries; and the tempo becomes 60000 divided by the mean of the valid intervals
  between consecutive onsets of that history, an interval being valid when it lies within
  300 ms and 1000 ms. An invalid interval does not enter the mean, and with no valid
  interval the tempo keeps its previous value.
\<close>

theorem processEnergy_onset_recomputes_bpm:
  assumes "fst (processEnergy d en t)"
  shows "onsetTimes (snd (processEnergy d en t)) = spec_pushOnset (onsetTimes d) t
     \<and> getBpm (snd (processEnergy d en t)) = spec_bpm (getBpm d) (spec_pushOnset (onsetTimes d) t)"
  using onset_step[OF assms] by (simp add: getBpm_def)

theorem processEnergy_onset_recomputes_bpm_witness:
  "fst (processEnergy afterOneOnset (Fin (1 / 2)) (Fin 1400))
   \<and> spec_pushOnset (onsetTimes afterOneOnset) (Fin 1400) = [Fin 1000, Fin 1400]
   \<and> spec_bpm (getBpm afterOneOnset) [Fin 1000, Fin 1400] = Fin 150
   \<and> onsetTimes (snd (processEnergy afterOneOnset (Fin (1 / 2)) (Fin 1400)))
       = spec_pushOnset (onsetTimes afterOneOnset) (Fin 1400)
   \<and> getBpm (snd (processEnergy afterOneOnset (Fin (1 / 2)) (Fin 1400)))
       = spec_bpm (getBpm afterOneOnset) (spec_pushOnset (onsetTimes afterOneOnset) (Fin 1400))"
proof -
  have h: "fst (processEnergy afterOneOnset (Fin (1 / 2)) (Fin 1400))" by code_simp
  have p: "spec_pushOnset (onsetTimes afterOneOnset) (Fin 1400) = [Fin 1000, Fin 1400]" by code_simp
  have b: "spec_bpm (getBpm afterOneOnset) [Fin 1000, Fin 1400] = Fin 150" by code_simp
  show ?thesis using h p b processEnergy_onset_recomputes_bpm[OF h] by simp
qed




text \<open>
  C5. When the analyzer is not connected, or has no analyser node, \<open>getAnalysis\<close> returns
  an analysis and leaves the analyzer as it is: the analysis carries the timestamp, a
  spectrum of the configured size, 1024 bins, all of them 0, and the energy 0 in each of
  \<open>low\<close>, \<open>mid\<close>, \<open>high\<close> and \<open>total\<close>.
\<close>

theorem getAnalysis_silent_when_unavailable:
  assumes "\<not> isConnected a \<or> analyserNode a = None"
  shows "\<exists>r. getAnalysis a now frame = Some (r, a)
      \<and> timestamp r = now
      \<and> length (fft r) = FFT_SIZE div 2
      \<and> fft r = replicate 1024 (Fin 0)
      \<and> list_all (\<lambda>x. x = Fin 0) (fft r)
      \<and> energy r = \<lparr> low = Fin 0, mid = Fin 0, high = Fin 0, total = Fin 0 \<rparr>"
  using silent_branch[OF assms]
  by (simp add: createSilentAnalysis_def newFloat32Array_def list_all_iff FFT_SIZE_def)

theorem getAnalysis_silent_when_unavailable_witness:
  "\<not> isConnected (disconnect liveAnalyzer) \<and> analyserNode (disconnect liveAnalyzer) = None
   \<and> (\<exists>r. getAnalysis (disconnect liveAnalyzer) (Fin 5000) [Fin (- 30), NaN]
             = Some (r, disconnect liveAnalyzer)
      \<and> timestamp r = Fin 5000
      \<and> length (fft r) = FFT_SIZE div 2
      \<and> fft r = replicate 1024 (Fin 0)
      \<and> list_all (\<lambda>x. x = Fin 0) (fft r)
      \<and> energy r = \<lparr> low = Fin 0, mid = Fin 0, high = Fin 0, total = Fin 0 \<rparr>)"
proof -
  have c: "\<not> isConnected (disconnect liveAnalyzer) \<and> analyserNode (disconnect liveAnalyzer) = None"
    by (simp add: disconnect_def Let_def stopAnalysisLoop_def liveAnalyzer_def connect_def)
  then have h: "\<not> isConnected (disconnect liveAnalyzer) \<or> analyserNode (disconnect liveAnalyzer) = None"
    by simp
  show ?thesis
    using c getAnalysis_silent_when_unavailable[OF h, of "Fin 5000" "[Fin (- 30), NaN]"] by blast
qed

text \<open>
  C6. For a connected analyzer and every frame of 1024 levels in dB (the infinities
  included, \<open>NaN\<close> not being a level), the spectrum of the analysis is the one
  \<open>normalizeFftData\<close> computes from the frame; it has 1024 bins, each bin is the level
  of the frame at its position, clamped to the range from -100 dB to 0 dB and mapped
  affinely onto [0,1], and so each bin lies in [0,1].
\<close>

theorem normalized_spectrum_clamped:
  assumes "buffersAllocated a" "isConnected a" "analyserNode a \<noteq> None"
    and "length frame = FFT_SIZE div 2" "list_all (\<lambda>db. db \<noteq> NaN) frame"
  shows "\<exists>r a'. getAnalysis a now frame = Some (r, a')
      \<and> fft r = normalizedFft (normalizeFftData (a\<lparr>fftData := getFloatFrequencyData frame (fftData a)\<rparr>))
      \<and> length (fft r) = 1024
      \<and> list_all2 spec_normalizedBin frame (fft r)
      \<and> list_all inUnit (fft r)"
proof -
  have nn: "NaN \<notin> set frame" using assms(5) by (auto simp: list_all_iff)
  from getAnalysis_connected[OF assms(1,2,3,4) nn, of now]
  obtain r a' where g: "getAnalysis a now frame = Some (r, a')"
    and s: "list_all2 spec_normalizedBin frame (fft r)" by blast
  have f: "fft r = normalizedFft (normalizeFftData (a\<lparr>fftData := getFloatFrequencyData frame (fftData a)\<rparr>))"
    using g assms(2,3)
    by (auto simp: getAnalysis_def Let_def split: option.splits prod.splits)
  have l: "length (fft r) = 1024"
    using s assms(4) by (simp add: list_all2_lengthD[symmetric] FFT_SIZE_def)
  have u: "list_all inUnit (fft r)"
    using spec_normalizedBin_all_unit[OF s] by (simp add: list_all_iff)
  show ?thesis using g f l s u by blast
qed

theorem normalized_spectrum_clamped_witness:
  "buffersAllocated liveAnalyzer \<and> isConnected liveAnalyzer \<and> analyserNode liveAnalyzer \<noteq> None
   \<and> length (replicate 512 (Fin (- 25)) @ replicate 512 NegInf) = FFT_SIZE div 2
   \<and> list_all (\<lambda>db. db \<noteq> NaN) (replicate 512 (Fin (- 25)) @ replicate 512 NegInf)
   \<and> spec_normalizedBin (Fin (- 25)) (Fin (3 / 4)) \<and> spec_normalizedBin NegInf (Fin 0)
   \<and> (\<exists>r a'. getAnalysis liveAnalyzer (Fin 5000) (replicate 512 (Fin (- 25)) @ replicate 512 NegInf)
                = Some (r, a')
      \<and> fft r = normalizedFft (normalizeFftData (liveAnalyzer\<lparr>fftData :=
                   getFloatFrequencyData (replicate 512 (Fin (- 25)) @ replicate 512 NegInf)
                     (fftData liveAnalyzer)\<rparr>))
      \<and> length (fft r) = 1024
      \<and> list_all2 spec_normalizedBin (replicate 512 (Fin (- 25)) @ replicate 512 NegInf) (fft r)
      \<and> list_all inUnit (fft r))"
proof -
  have h1: "buffersAllocated liveAnalyzer"
    by (simp add: liveAnalyzer_def buffersAllocated_def connect_def Let_def newAudioAnalyzer_def
                  newFloat32Array_def)
  have h2: "isConnected liveAnalyzer" by (simp add: liveAnalyzer_def connect_def Let_def)
  have h3: "analyserNode liveAnalyzer \<noteq> None" by (simp add: liveAnalyzer_def connect_def Let_def)
  have h4: "length (replicate 512 (Fin (- 25)) @ replicate 512 NegInf) = FFT_SIZE div 2"
    by (simp add: FFT_SIZE_def)
  have h5: "list_all (\<lambda>db. db \<noteq> NaN) (replicate 512 (Fin (- 25)) @ replicate 512 NegInf)"
    by (simp add: list_all_iff)
  have e: "spec_normalizedBin (Fin (- 25)) (Fin (3 / 4)) \<and> spec_normalizedBin NegInf (Fin 0)"
    by (simp add: spec_normalizedBin_def spec_clampDb_def spec_affineDb_def)
  show ?thesis
    using h1 h2 h3 h4 h5 e normalized_spectrum_clamped[OF h1 h2 h3 h4 h5, of "Fin 5000"] by blast
qed

text \<open>
  C7, as stated: the energy of a band is the arithmetic mean of the magnitudes of the
  bins in its range, and 0 when the range maps to zero bins. This fails for a range that
  ends beyond the array: on the spectrum 1, 1, 1 the range from 1 to 5 holds the two bins
  at the positions 1 and 2, whose mean is 1, and \<open>calculateBandEnergy\<close> returns 0.
\<close>

theorem calculateBandEnergy_out_of_array_counterexample:
  "spec_binsInRange [Fin 1, Fin 1, Fin 1] (Fin 1) (Fin 5) = [Fin 1, Fin 1]
   \<and> spec_bandEnergy [Fin 1, Fin 1, Fin 1] (Fin 1) (Fin 5) = Fin 1
   \<and> calculateBandEnergy [Fin 1, Fin 1, Fin 1] (Fin 1) (Fin 5) = Some (Fin 0)
   \<and> calculateBandEnergy [Fin 1, Fin 1, Fin 1] (Fin 1) (Fin 5)
       \<noteq> Some (spec_bandEnergy [Fin 1, Fin 1, Fin 1] (Fin 1) (Fin 5))"
  by (simp add: spec_binsInRange_def spec_bandEnergy_def mean_def jsLe_def jsNat_def upt_rec
        calculateBandEnergy_def bandEnergyRun_def jsGe_def jsGt_def jsLength_def)

text \<open>
  C7, amended. On finite magnitudes and bin indices, the energy \<open>calculateBandEnergy\<close>
  returns for a range that lies inside the array is the arithmetic mean of the magnitudes
  of the bins in the range, and 0 when the range maps to zero bins; for a range that does
  not lie inside the array (it starts below 0 or ends beyond the array, or a bound is
  \<open>NaN\<close>) it is 0. In every case it is a number, not \<open>NaN\<close> and not a failure.
\<close>

theorem calculateBandEnergy_mean_inside_array:
  assumes "list_all isFinite xs" "isBinIndex s" "isBinIndex e"
  shows "calculateBandEnergy xs s e =
     Some (if rangeInsideArray xs s e then spec_bandEnergy xs s e else Fin 0)"
  using assms calculateBandEnergy_spec[of xs s e] by (simp add: list_all_iff)

theorem calculateBandEnergy_mean_inside_array_witness:
  "list_all isFinite [Fin 1, Fin (1 / 2), Fin 0, Fin 1] \<and> isBinIndex (Fin 1) \<and> isBinIndex (Fin 3)
   \<and> rangeInsideArray [Fin 1, Fin (1 / 2), Fin 0, Fin 1] (Fin 1) (Fin 3)
   \<and> spec_binsInRange [Fin 1, Fin (1 / 2), Fin 0, Fin 1] (Fin 1) (Fin 3) = [Fin (1 / 2), Fin 0]
   \<and> calculateBandEnergy [Fin 1, Fin (1 / 2), Fin 0, Fin 1] (Fin 1) (Fin 3) = Some (Fin (1 / 4))"
proof -
  have h1: "list_all isFinite [Fin 1, Fin (1 / 2), Fin 0, Fin 1]" by (simp add: isFinite_def)
  have h2: "isBinIndex (Fin 1)" by (simp add: isBinIndex_def)
  have h3: "isBinIndex (Fin 3)" by (simp add: isBinIndex_def)
  have w: "rangeInsideArray [Fin 1, Fin (1 / 2), Fin 0, Fin 1] (Fin 1) (Fin 3)"
    by (simp add: rangeInsideArray_def jsLe_def jsLength_def jsNat_def)
  have b: "spec_binsInRange [Fin 1, Fin (1 / 2), Fin 0, Fin 1] (Fin 1) (Fin 3) = [Fin (1 / 2), Fin 0]"
    by (simp add: spec_binsInRange_def jsLe_def jsNat_def upt_rec)
  show ?thesis
    using h1 h2 h3 w b calculateBandEnergy_mean_inside_array[OF h1 h2 h3]
    by (simp add: spec_bandEnergy_def mean_def)
qed

text \<open>
  C8. After \<open>reset\<close> the history of onsets is empty, the stored energy and the time of
  the last onset are 0, and \<open>getBpm\<close> returns 120: the detector is a new one.
  \<open>disconnect\<close> resets the detector of the analyzer, and a following \<open>connect\<close> leaves it
  new. No interval survives: after the first call of \<open>processEnergy\<close> on the reset
  detector the history holds no interval and the tempo is still 120.
\<close>

theorem reset_restores_default:
  "onsetTimes (reset d) = [] \<and> lastEnergy (reset d) = Fin 0 \<and> lastOnsetTime (reset d) = Fin 0
   \<and> getBpm (reset d) = Fin 120
   \<and> reset d = newBpmDetector
   \<and> bpmDetector (disconnect a) = reset (bpmDetector a)
   \<and> bpmDetector (connect (disconnect a) c src f) = newBpmDetector
   \<and> spec_interOnsetIntervals (onsetTimes (snd (processEnergy (reset d) en t))) = []
   \<and> getBpm (snd (processEnergy (reset d) en t)) = Fin 120"
proof -
  have r: "reset d = newBpmDetector" by (rule reset_new)
  have dis: "bpmDetector (disconnect a) = reset (bpmDetector a)"
    by (simp add: disconnect_def Let_def stopAnalysisLoop_def)
  have con: "bpmDetector (connect (disconnect a) c src f) = bpmDetector (disconnect a)"
    by (simp add: connect_def Let_def)
  have first: "spec_interOnsetIntervals (onsetTimes (snd (processEnergy newBpmDetector en t))) = []
      \<and> getBpm (snd (processEnergy newBpmDetector en t)) = Fin 120"
    by (cases "fst (processEnergy newBpmDetector en t)")
       (simp_all add: onset_step quiet_step newBpmDetector_def getBpm_def
          spec_pushOnset_def spec_interOnsetIntervals_def spec_bpm_short)
  show ?thesis using first by (simp add: r dis con reset_new) (simp add: newBpmDetector_def getBpm_def)
qed

theorem reset_restores_default_witness:
  "getBpm afterTwoOnsets = Fin 150 \<and> onsetTimes afterTwoOnsets = [Fin 1000, Fin 1400]
   \<and> onsetTimes (reset afterTwoOnsets) = [] \<and> lastEnergy (reset afterTwoOnsets) = Fin 0
   \<and> lastOnsetTime (reset afterTwoOnsets) = Fin 0
   \<and> getBpm (reset afterTwoOnsets) = Fin 120
   \<and> bpmDetector (disconnect liveAnalyzer) = newBpmDetector
   \<and> getBpm (snd (processEnergy (reset afterTwoOnsets) (Fin (1 / 2)) (Fin 1800))) = Fin 120"
proof -
  have v: "getBpm afterTwoOnsets = Fin 150 \<and> onsetTimes afterTwoOnsets = [Fin 1000, Fin 1400]"
    by code_simp
  note t = reset_restores_default[of afterTwoOnsets liveAnalyzer "\<lparr> sampleRate = Fin 48000 \<rparr>" 1 1
              "Fin (1 / 2)" "Fin 1800"]
  have b: "bpmDetector liveAnalyzer = afterTwoOnsets" by (simp add: liveAnalyzer_def)
  have d: "bpmDetector (disconnect liveAnalyzer) = newBpmDetector" using t b by metis
  show ?thesis using v t d by blast
qed

text \<open>
  C9. For every array and every two numbers given as \<open>startBin\<close> and \<open>endBin\<close>,
  \<open>calculateBandEnergy\<close> returns. If \<open>startBin >= endBin\<close>, \<open>startBin < 0\<close> or
  \<open>endBin > fftData.length\<close>, it returns 0 and reads nothing. Every position it reads
  lies from \<open>startBin\<close> up to, not including, \<open>endBin\<close>, and from 0 up to, not including,
  the length of the array; and when \<open>startBin\<close> is a bin index (an integer, as
  \<open>Math.round\<close> returns it), every read is the read of an element of the array.
\<close>

theorem calculateBandEnergy_reads_inside:
  "\<exists>r reads. bandEnergyRun xs s e = Some (r, reads)
     \<and> calculateBandEnergy xs s e = Some r
     \<and> (jsGe s e \<or> jsLt s (Fin 0) \<or> jsGt e (jsLength xs) \<longrightarrow> r = Fin 0 \<and> reads = [])
     \<and> list_all (\<lambda>p. jsLe s p \<and> jsLt p e \<and> jsLe (Fin 0) p \<and> jsLt p (jsLength xs)) reads
     \<and> (isBinIndex s \<longrightarrow> list_all (\<lambda>p. jsIndex xs p \<noteq> None) reads)"
proof -
  from bandEnergyRun_reads_real[of xs s e] obtain r reads where
    run: "bandEnergyRun xs s e = Some (r, reads)"
    and inside: "\<forall>p\<in>set reads. jsLe s p \<and> jsLt p e \<and> jsLe (Fin 0) p \<and> jsLt p (jsLength xs)"
    and elems: "isBinIndex s \<longrightarrow> (\<forall>p\<in>set reads. jsIndex xs p \<noteq> None)"
    by blast
  have c: "calculateBandEnergy xs s e = Some r" using run by (simp add: calculateBandEnergy_def)
  have g: "jsGe s e \<or> jsLt s (Fin 0) \<or> jsGt e (jsLength xs) \<longrightarrow> r = Fin 0 \<and> reads = []"
    using run by (auto simp: bandEnergyRun_def)
  show ?thesis using run c g inside elems by (auto simp: list_all_iff)
qed

theorem calculateBandEnergy_reads_inside_witness:
  "isBinIndex (Fin 1)
   \<and> bandEnergyRun [Fin 1, NaN, Fin 0, Fin 1] (Fin 1) (Fin 3) = Some (NaN, [Fin 1, Fin 2])
   \<and> jsIndex [Fin 1, NaN, Fin 0, Fin 1] (Fin 1) = Some NaN
   \<and> jsIndex [Fin 1, NaN, Fin 0, Fin 1] (Fin 2) = Some (Fin 0)
   \<and> bandEnergyRun [Fin 1, NaN, Fin 0, Fin 1] (Fin 2) (Fin 6) = Some (Fin 0, [])
   \<and> (\<exists>r reads. bandEnergyRun [Fin 1, NaN, Fin 0, Fin 1] (Fin 1) (Fin 3) = Some (r, reads)
     \<and> calculateBandEnergy [Fin 1, NaN, Fin 0, Fin 1] (Fin 1) (Fin 3) = Some r
     \<and> list_all (\<lambda>p. jsLe (Fin 1) p \<and> jsLt p (Fin 3) \<and> jsLe (Fin 0) p
            \<and> jsLt p (jsLength [Fin 1, NaN, Fin 0, Fin 1])) reads
     \<and> list_all (\<lambda>p. jsIndex [Fin 1, NaN, Fin 0, Fin 1] p \<noteq> None) reads)"
proof -
  have h: "isBinIndex (Fin 1)" by (simp add: isBinIndex_def)
  have v: "bandEnergyRun [Fin 1, NaN, Fin 0, Fin 1] (Fin 1) (Fin 3) = Some (NaN, [Fin 1, Fin 2])"
    by code_simp
  have i: "jsIndex [Fin 1, NaN, Fin 0, Fin 1] (Fin 1) = Some NaN
      \<and> jsIndex [Fin 1, NaN, Fin 0, Fin 1] (Fin 2) = Some (Fin 0)"
    by simp
  have w: "bandEnergyRun [Fin 1, NaN, Fin 0, Fin 1] (Fin 2) (Fin 6) = Some (Fin 0, [])"
    by code_simp
  show ?thesis
    using h v i w calculateBandEnergy_reads_inside[of "[Fin 1, NaN, Fin 0, Fin 1]" "Fin 1" "Fin 3"]
    by blast
qed

text \<open>
  C10. When the analyzer is not connected, or has no analyser node, the analysis that
  \<open>getAnalysis\<close> returns has the tempo 120 and the beat flag false, whatever tempo the
  detector holds, and its spectrum has 1024 bins.
\<close>

theorem getAnalysis_silent_defaults:
  assumes "\<not> isConnected a \<or> analyserNode a = None"
  shows "\<exists>r. getAnalysis a now frame = Some (r, a)
      \<and> bpm r = Fin 120 \<and> beat r = False \<and> length (fft r) = 1024"
  using silent_branch[OF assms]
  by (simp add: createSilentAnalysis_def newFloat32Array_def FFT_SIZE_def)

theorem getAnalysis_silent_defaults_witness:
  "getBpm (bpmDetector (liveAnalyzer\<lparr>isConnected := False\<rparr>)) = Fin 150
   \<and> \<not> isConnected (liveAnalyzer\<lparr>isConnected := False\<rparr>)
   \<and> (\<exists>r. getAnalysis (liveAnalyzer\<lparr>isConnected := False\<rparr>) (Fin 5000) []
             = Some (r, liveAnalyzer\<lparr>isConnected := False\<rparr>)
      \<and> bpm r = Fin 120 \<and> beat r = False \<and> length (fft r) = 1024)"
proof -
  have "getBpm afterTwoOnsets = Fin 150" by code_simp
  then have v: "getBpm (bpmDetector (liveAnalyzer\<lparr>isConnected := False\<rparr>)) = Fin 150"
    by (simp add: liveAnalyzer_def)
  have h: "\<not> isConnected (liveAnalyzer\<lparr>isConnected := False\<rparr>)
        \<or> analyserNode (liveAnalyzer\<lparr>isConnected := False\<rparr>) = None"
    by simp
  have c: "\<not> isConnected (liveAnalyzer\<lparr>isConnected := False\<rparr>)" by simp
  show ?thesis
    using v c getAnalysis_silent_defaults[OF h, of "Fin 5000" "[]"] by blast
qed

end
